theory Spec2Isabelle
  imports Main "HOL-Library.Sublist"
begin

section \<open>JavaScript values and string primitives\<close>

text \<open>
  A JavaScript string is modelled as a \<^typ>\<open>string\<close>: the list of the bytes of its UTF-8
  encoding. Every pattern the repository searches for is ASCII, and an ASCII byte never
  occurs inside the encoding of another character, so searching and replacing on the
  bytes is searching and replacing on the characters. A value that may be
  \<^verbatim>\<open>undefined\<close> (a missing environment variable, an absent field of a request body) is
  a \<^typ>\<open>string option\<close>.

  Calls to the logger (\<^verbatim>\<open>utils/logger\<close>) and to \<^verbatim>\<open>console.log\<close> only write to the log
  sink; they take no part in the control flow and are left out of the model.
\<close>

text \<open>Truthiness of an optional string: \<^verbatim>\<open>undefined\<close> and the empty string are falsy.\<close>

definition truthy :: "string option \<Rightarrow> bool" where
  "truthy v = (case v of None \<Rightarrow> False | Some s \<Rightarrow> s \<noteq> [])"

text \<open>\<^verbatim>\<open>v || d\<close> for an optional string \<open>v\<close> and a string \<open>d\<close>.\<close>

definition js_or :: "string option \<Rightarrow> string \<Rightarrow> string" where
  "js_or v d = (case v of None \<Rightarrow> d | Some s \<Rightarrow> if s = [] then d else s)"

text \<open>\<^verbatim>\<open>s.replace(/c/g, r)\<close> for a single literal character \<open>c\<close> and a replacement
  \<open>r\<close> without dollar patterns: every occurrence of \<open>c\<close> becomes \<open>r\<close>.\<close>

definition replace_all_char :: "char \<Rightarrow> string \<Rightarrow> string \<Rightarrow> string" where
  "replace_all_char c r s = concat (map (\<lambda>x. if x = c then r else [x]) s)"

text \<open>
  The search of \<^verbatim>\<open>s.replace(pattern, replacement)\<close> with a string pattern: the text
  before and the text after the first occurrence of the pattern, if there is one.
\<close>

fun split_first :: "string \<Rightarrow> string \<Rightarrow> (string \<times> string) option" where
  "split_first pat [] = (if pat = [] then Some ([], []) else None)"
| "split_first pat (c # cs) =
     (if prefix pat (c # cs) then Some ([], drop (length pat) (c # cs))
      else map_option (\<lambda>(a, b). (c # a, b)) (split_first pat cs))"

text \<open>
  ECMAScript's GetSubstitution for a match without capture groups: in the replacement
  string \<^verbatim>\<open>$$\<close> stands for a dollar sign, \<^verbatim>\<open>$&\<close> for the matched text,
  \<^verbatim>\<open>$`\<close> for the text before the match and \<^verbatim>\<open>$'\<close> for the text after it; every
  other character, and a dollar sign followed by anything else, is copied.
\<close>

fun get_substitution :: "string \<Rightarrow> string \<Rightarrow> string \<Rightarrow> string \<Rightarrow> string" where
  "get_substitution matched preceding following [] = []"
| "get_substitution matched preceding following [c] = [c]"
| "get_substitution matched preceding following (c # d # r) =
     (if c = CHR ''$'' \<and> d = CHR ''$'' then CHR ''$'' # get_substitution matched preceding following r
      else if c = CHR ''$'' \<and> d = CHR ''&'' then matched @ get_substitution matched preceding following r
      else if c = CHR ''$'' \<and> d = CHR 0x60 then preceding @ get_substitution matched preceding following r
      else if c = CHR ''$'' \<and> d = CHR 0x27 then following @ get_substitution matched preceding following r
      else c # get_substitution matched preceding following (d # r))"

text \<open>\<^verbatim>\<open>s.replace(pat, rep)\<close> with strings \<open>pat\<close> and \<open>rep\<close>: only the first occurrence
  of \<open>pat\<close> is replaced, by the expansion of \<open>rep\<close>.\<close>

definition js_replace :: "string \<Rightarrow> string \<Rightarrow> string \<Rightarrow> string" where
  "js_replace pat rep s =
     (case split_first pat s of
        None \<Rightarrow> s
      | Some (a, b) \<Rightarrow> a @ get_substitution pat a b rep @ b)"

text \<open>The lines of a template literal, joined by newline characters.\<close>

fun join_lines :: "string list \<Rightarrow> string" where
  "join_lines [] = []"
| "join_lines [l] = l"
| "join_lines (l # ls) = l @ CHR 0x0A # join_lines ls"

text \<open>The decimal digits of a number, as string interpolation writes it.\<close>

fun decimal :: "nat \<Rightarrow> string" where
  "decimal n = (if n < 10 then [char_of (48 + n)] else decimal (n div 10) @ [char_of (48 + n mod 10)])"


section \<open>Sanitizer: utils/email-templates.js, escapeHtml\<close>

text \<open>
  \<^verbatim>\<open>
  function escapeHtml(text) {
    return text
      .replace(/&/g, '&amp;')
      .replace(/</g, '&lt;')
      .replace(/>/g, '&gt;')
      .replace(/"/g, '&quot;')
      .replace(/'/g, '&#039;');
  }
  \<close>
  The five passes run one after the other, each over the result of the previous one.
\<close>

definition escapeHtml :: "string \<Rightarrow> string" where
  \<open>escapeHtml text =
     replace_all_char (CHR 0x27) ''&#039;''
       (replace_all_char (CHR 0x22) ''&quot;''
         (replace_all_char CHR ''>'' ''&gt;''
           (replace_all_char CHR ''<'' ''&lt;''
             (replace_all_char CHR ''&'' ''&amp;'' text))))\<close>

text \<open>The entity that stands for one input character, for comparison with the five passes.\<close>

definition escape_char :: "char \<Rightarrow> string" where
  \<open>escape_char c =
     (if c = CHR ''&'' then ''&amp;''
      else if c = CHR ''<'' then ''&lt;''
      else if c = CHR ''>'' then ''&gt;''
      else if c = CHR 0x22 then ''&quot;''
      else if c = CHR 0x27 then ''&#039;''
      else [c])\<close>

definition html_entities :: "string list" where
  \<open>html_entities = [''&amp;'', ''&lt;'', ''&gt;'', ''&quot;'', ''&#039;'']\<close>

definition html_significant :: "char set" where
  \<open>html_significant = {CHR ''&'', CHR ''<'', CHR ''>'', CHR 0x22, CHR 0x27}\<close>

text \<open>Every ampersand of a string starts one of the five entities.\<close>

fun amp_starts_entity :: "string \<Rightarrow> bool" where
  "amp_starts_entity [] = True"
| "amp_starts_entity (c # cs) =
     ((c = CHR ''&'' \<longrightarrow> (\<exists>e \<in> set html_entities. prefix e (c # cs))) \<and> amp_starts_entity cs)"


section \<open>Template renderer\<close>

text \<open>
  The fields both renderers take. \<^verbatim>\<open>customData\<close> is an optional object of which the
  repository reads two optional entries, \<^verbatim>\<open>buttonText\<close> (email) and
  \<^verbatim>\<open>messageTemplate\<close> (SMS).
\<close>

record custom_data =
  buttonText :: "string option"
  messageTemplate :: "string option"

record review_fields =
  customerName :: string
  businessName :: string
  reviewLink :: string
  customData :: "custom_data option"

subsection \<open>utils/email-templates.js, generateReviewRequestHtml\<close>

text \<open>
  The template literal of \<^verbatim>\<open>generateReviewRequestHtml\<close>, cut at its eight
  interpolations into nine constant pieces, each given line by line.
\<close>

definition review_html_0 :: string where
  \<open>review_html_0 = join_lines
    ['''',
     ''      <!DOCTYPE html>'',
     ''      <html>'',
     ''      <head>'',
     ''        <meta charset="utf-8">'',
     ''        <meta name="viewport" content="width=device-width, initial-scale=1.0">'',
     ''        <title>We'd Love Your Feedback</title>'',
     ''        <style>'',
     ''          @import url('https://fonts.googleapis.com/css2?family=Inter:wght@400;500;600;700&display=swap');'',
     ''          '',
     ''          /* Base styles */'',
     ''          body {'',
     ''            font-family: 'Inter', -apple-system, BlinkMacSystemFont, 'Segoe UI', Roboto, Helvetica, Arial, sans-serif;'',
     ''            line-height: 1.6;'',
     ''            color: #374151;'',
     ''            background-color: #f3f4f6;'',
     ''            margin: 0;'',
     ''            padding: 0;'',
     ''          }'',
     ''          '',
     ''          /* Container styles */'',
     ''          .container {'',
     ''            max-width: 600px;'',
     ''            margin: 0 auto;'',
     ''            padding: 20px;'',
     ''            background-color: #ffffff;'',
     ''          }'',
     ''          '',
     ''          /* Header styles */'',
     ''          .header {'',
     ''            text-align: center;'',
     ''            padding: 20px 0;'',
     ''            border-bottom: 1px solid #e5e7eb;'',
     ''          }'',
     ''          '',
     ''          .header h2 {'',
     ''            color: #1e3a8a;'',
     ''            margin: 0;'',
     ''            font-size: 24px;'',
     ''            font-weight: 700;'',
     ''          }'',
     ''          '',
     ''          /* Content styles */'',
     ''          .content {'',
     ''            padding: 24px 20px;'',
     ''          }'',
     ''          '',
     ''          /* Button styles */'',
     ''          .button-container {'',
     ''            text-align: center;'',
     ''            margin: 30px 0;'',
     ''          }'',
     ''          '',
     ''          .button {'',
     ''            display: inline-block;'',
     ''            padding: 12px 24px;'',
     ''            background-color: #2563eb;'',
     ''            color: white !important;'',
     ''            text-decoration: none;'',
     ''            border-radius: 6px;'',
     ''            font-weight: 600;'',
     ''            font-size: 16px;'',
     ''            transition: background-color 0.3s;'',
     ''          }'',
     ''          '',
     ''          .button:hover {'',
     ''            background-color: #1e40af;'',
     ''          }'',
     ''          '',
     ''          /* Footer styles */'',
     ''          .footer {'',
     ''            text-align: center;'',
     ''            margin-top: 20px;'',
     ''            padding-top: 20px;'',
     ''            border-top: 1px solid #e5e7eb;'',
     ''            font-size: 12px;'',
     ''            color: #6b7280;'',
     ''          }'',
     ''          '',
     ''          /* Responsive adjustments */'',
     ''          @media only screen and (max-width: 480px) {'',
     ''            .container {'',
     ''              padding: 10px;'',
     ''            }'',
     ''            '',
     ''            .content {'',
     ''              padding: 20px 15px;'',
     ''            }'',
     ''            '',
     ''            .button {'',
     ''              display: block;'',
     ''              text-align: center;'',
     ''            }'',
     ''          }'',
     ''        </style>'',
     ''      </head>'',
     ''      <body>'',
     ''        <div class="container">'',
     ''          <div class="header">'',
     ''            <h2>We'd Love Your Feedback!</h2>'',
     ''          </div>'',
     ''          <div class="content">'',
     ''            <p>Hello '']\<close>

definition review_html_1 :: string where
  \<open>review_html_1 = join_lines
    ['',</p>'',
     ''            <p>Thank you for choosing '']\<close>

definition review_html_2 :: string where
  \<open>review_html_2 = join_lines
    [''. We hope you had a great experience!</p>'',
     ''            <p>We value your feedback and would appreciate it if you could take a moment to share your experience with us.</p>'',
     ''            '',
     ''            <div class="button-container">'',
     ''              <a href="'']\<close>

definition review_html_3 :: string where
  \<open>review_html_3 = join_lines
    [''" class="button">'']\<close>

definition review_html_4 :: string where
  \<open>review_html_4 = join_lines
    [''</a>'',
     ''            </div>'',
     ''            '',
     ''            <p>Your feedback helps us improve and better serve our customers.</p>'',
     ''            <p>Thank you for your time!</p>'',
     ''            <p>'',
     ''              Best regards,<br>'',
     ''              The '']\<close>

definition review_html_5 :: string where
  \<open>review_html_5 = join_lines
    ['' Team'',
     ''            </p>'',
     ''          </div>'',
     ''          <div class="footer">'',
     ''            <p>This email was sent to you because you interacted with '']\<close>

definition review_html_6 :: string where
  \<open>review_html_6 = join_lines
    [''.</p>'',
     ''            <p>'' @ [CHR 0xC2, CHR 0xA9] @ '' '']\<close>

definition review_html_7 :: string where
  \<open>review_html_7 = join_lines
    ['' '']\<close>

definition review_html_8 :: string where
  \<open>review_html_8 = join_lines
    [''. All rights reserved.</p>'',
     ''          </div>'',
     ''        </div>'',
     ''      </body>'',
     ''      </html>'',
     ''    '']\<close>

text \<open>
  \<^verbatim>\<open>
  function generateReviewRequestHtml({ customerName, businessName, reviewLink, customData = {} }) {
    // Escape all user-provided data to prevent XSS
    const safeCustomerName = escapeHtml(customerName);
    const safeBusinessName = escapeHtml(businessName);
    const safeReviewLink = escapeHtml(reviewLink);
    const currentYear = new Date().getFullYear();
    const buttonText = customData.buttonText || 'Leave a Review';
    return `... <p>Hello ${safeCustomerName},</p> ...
            <a href="${safeReviewLink}" class="button">${buttonText}</a> ...`;
  }
  \<close>
  The year read from the clock is a parameter. The label of the button is the text
  between \<^verbatim>\<open>class="button">\<close> and \<^verbatim>\<open></a>\<close>.
\<close>

definition button_label :: "custom_data option \<Rightarrow> string" where
  "button_label cd =
     (case cd of
        None \<Rightarrow> ''Leave a Review''
      | Some d \<Rightarrow> js_or (buttonText d) ''Leave a Review'')"

definition generateReviewRequestHtml :: "nat \<Rightarrow> review_fields \<Rightarrow> string" where
  "generateReviewRequestHtml currentYear f =
     (let safeCustomerName = escapeHtml (customerName f);
          safeBusinessName = escapeHtml (businessName f);
          safeReviewLink = escapeHtml (reviewLink f);
          buttonText = button_label (customData f)
      in review_html_0 @ safeCustomerName
         @ review_html_1 @ safeBusinessName
         @ review_html_2 @ safeReviewLink
         @ review_html_3 @ buttonText
         @ review_html_4 @ safeBusinessName
         @ review_html_5 @ safeBusinessName
         @ review_html_6 @ decimal currentYear
         @ review_html_7 @ safeBusinessName
         @ review_html_8)"

subsection \<open>services/sms-service.js, generateReviewRequestMessage\<close>

text \<open>
  \<^verbatim>\<open>
  generateReviewRequestMessage({ customerName, businessName, reviewLink, customData }) {
    let message = `Hi ${customerName}, thank you for choosing ${businessName}! We'd love to
                   hear your feedback. Please share your experience here: ${reviewLink}`;
    if (customData && customData.messageTemplate) {
      message = customData.messageTemplate
        .replace('{{customerName}}', customerName)
        .replace('{{businessName}}', businessName)
        .replace('{{reviewLink}}', reviewLink);
    }
    return message;
  }
  \<close>
\<close>

definition default_message :: "review_fields \<Rightarrow> string" where
  \<open>default_message f =
     ''Hi '' @ customerName f @ '', thank you for choosing '' @ businessName f
     @ ''! We'd love to hear your feedback. Please share your experience here: ''
     @ reviewLink f\<close>

definition fill_template :: "review_fields \<Rightarrow> string \<Rightarrow> string" where
  "fill_template f template =
     js_replace ''{{reviewLink}}'' (reviewLink f)
       (js_replace ''{{businessName}}'' (businessName f)
         (js_replace ''{{customerName}}'' (customerName f) template))"

definition generateReviewRequestMessage :: "review_fields \<Rightarrow> string" where
  "generateReviewRequestMessage f =
     (case customData f of
        None \<Rightarrow> default_message f
      | Some d \<Rightarrow>
          (case messageTemplate d of
             None \<Rightarrow> default_message f
           | Some template \<Rightarrow>
               if template = [] then default_message f else fill_template f template))"

text \<open>
  Templates built from plain text and placeholders, to state what the three replacements
  do to them. A text piece holds no opening brace; an unrecognized placeholder is
  \<^verbatim>\<open>{{name}}\<close> for a name without braces that is none of the three recognized ones.
\<close>

datatype placeholder = CustomerName | BusinessName | ReviewLink

datatype piece = Text string | Hole placeholder | Unknown string

fun placeholder_name :: "placeholder \<Rightarrow> string" where
  "placeholder_name CustomerName = ''customerName''"
| "placeholder_name BusinessName = ''businessName''"
| "placeholder_name ReviewLink = ''reviewLink''"

definition placeholder_text :: "placeholder \<Rightarrow> string" where
  "placeholder_text h = ''{{'' @ placeholder_name h @ ''}}''"

fun render_piece :: "piece \<Rightarrow> string" where
  "render_piece (Text s) = s"
| "render_piece (Hole h) = placeholder_text h"
| "render_piece (Unknown n) = ''{{'' @ n @ ''}}''"

definition render :: "piece list \<Rightarrow> string" where
  "render ps = concat (map render_piece ps)"

fun wf_piece :: "piece \<Rightarrow> bool" where
  "wf_piece (Text s) = (CHR ''{'' \<notin> set s)"
| "wf_piece (Hole h) = True"
| "wf_piece (Unknown n) =
     (CHR ''{'' \<notin> set n \<and> CHR ''}'' \<notin> set n
      \<and> n \<noteq> ''customerName'' \<and> n \<noteq> ''businessName'' \<and> n \<noteq> ''reviewLink'')"

text \<open>The first hole for a placeholder replaced by a text, every other piece kept.\<close>

fun fill_first :: "placeholder \<Rightarrow> string \<Rightarrow> piece list \<Rightarrow> piece list" where
  "fill_first h v [] = []"
| "fill_first h v (p # ps) = (if p = Hole h then Text v # ps else p # fill_first h v ps)"

text \<open>The number of positions of a string at which a pattern occurs.\<close>

fun occurrences :: "string \<Rightarrow> string \<Rightarrow> nat" where
  "occurrences pat [] = 0"
| "occurrences pat (c # cs) = (if prefix pat (c # cs) then 1 else 0) + occurrences pat cs"

text \<open>A pattern starts at no position of \<open>x\<close> in the string \<open>x @ rest\<close>.\<close>

fun starts_nowhere :: "string \<Rightarrow> string \<Rightarrow> string \<Rightarrow> bool" where
  "starts_nowhere pat [] rest = True"
| "starts_nowhere pat (c # cs) rest =
     (\<not> prefix pat (c # cs @ rest) \<and> starts_nowhere pat cs rest)"

text \<open>A field value without a dollar sign and without an opening brace.\<close>

definition plain_value :: "string \<Rightarrow> bool" where
  "plain_value v = (CHR ''$'' \<notin> set v \<and> CHR ''{'' \<notin> set v)"


section \<open>Provider clients\<close>

text \<open>
  An HTTP response as axios presents it (its status and its parsed body), a JavaScript
  error object with its name, its message and the two properties the services inspect
  (for an axios error, the response received and whether a request was made), and the calls a
  service makes to a provider. A provider itself is a parameter: a function from the call
  to the outcome of the awaited promise, \<open>Inl\<close> for a rejection. The list of calls made so
  far is threaded through every operation, so that "no call was made" is a statement
  about that list.
\<close>

text \<open>
  The body of a response as axios parses it: the JSON literal \<^verbatim>\<open>null\<close>, or an object
  with its entries. Reading a property of \<^verbatim>\<open>null\<close> throws a \<^verbatim>\<open>TypeError\<close>; a body
  that is a string or a number has no properties and behaves as the object without
  entries.
\<close>

datatype response_data = JsonNull | JsonObject "string \<rightharpoonup> string"

record axios_response =
  status :: nat
  data :: response_data

record js_error =
  name :: string
  message :: string
  response :: "axios_response option"
  request :: bool

text \<open>\<^verbatim>\<open>new Error(m)\<close>: an error with a message and neither a response nor a request.\<close>

definition new_Error :: "string \<Rightarrow> js_error" where
  "new_Error m = \<lparr>name = ''Error'', message = m, response = None, request = False\<rparr>"

text \<open>
  The error the runtime throws when \<^verbatim>\<open>.message\<close> is read from \<^verbatim>\<open>null\<close> (the message is
  the one Node.js gives).
\<close>

definition null_property_error :: js_error where
  \<open>null_property_error =
     \<lparr>name = ''TypeError'', message = ''Cannot read properties of null (reading 'message')'',
      response = None, request = False\<rparr>\<close>

record email_data =
  mail_from :: string
  mail_to :: string
  subject :: string
  html :: string
  tags :: "(string \<times> string) list"
  reply_to :: "string option"

record sms_params =
  body :: string
  sms_from :: string
  sms_to :: string


datatype network_call =
    AxiosPost string email_data "(string \<times> string) list" nat
  | TwilioCreate sms_params

subsection \<open>services/email-service.js\<close>

text \<open>
  \<^verbatim>\<open>
  constructor() {
    this.apiKey = process.env.RESEND_API_KEY;
    this.fromEmail = process.env.EMAIL_FROM_ADDRESS;
    this.fromName = process.env.EMAIL_FROM_NAME;
    if (!this.fromEmail) { this.fromEmail = 'reviews@revboostapp.com'; }
    if (!this.fromName) { this.fromName = 'RevBoost'; }
  }
  \<close>
\<close>

record EmailService =
  apiKey :: "string option"
  fromEmail :: string
  fromName :: string

definition new_EmailService :: "(string \<rightharpoonup> string) \<Rightarrow> EmailService" where
  "new_EmailService env =
     \<lparr>apiKey = env ''RESEND_API_KEY'',
      fromEmail = js_or (env ''EMAIL_FROM_ADDRESS'') ''reviews@revboostapp.com'',
      fromName = js_or (env ''EMAIL_FROM_NAME'') ''RevBoost''\<rparr>"

text \<open>
  The catch block of \<^verbatim>\<open>sendEmail\<close>, as a function from the error caught to the error
  thrown:
  \<^verbatim>\<open>
  if (error.response) {
    throw new Error(error.response.data.message || 'Failed to send email');
  } else if (error.request) {
    throw new Error('No response from email service');
  } else {
    throw error;
  }
  \<close>
  The first branch reads \<^verbatim>\<open>error.response.data.message\<close> without a test of the body: for
  the body \<^verbatim>\<open>null\<close> the read itself throws, and that error leaves \<^verbatim>\<open>sendEmail\<close>.
\<close>

definition sendEmail_catch :: "js_error \<Rightarrow> js_error" where
  "sendEmail_catch error =
     (case response error of
        Some r \<Rightarrow>
          (case data r of
             JsonNull \<Rightarrow> null_property_error
           | JsonObject entries_of_body \<Rightarrow>
               new_Error (js_or (entries_of_body ''message'') ''Failed to send email''))
      | None \<Rightarrow>
          if request error then new_Error ''No response from email service''
          else error)"

text \<open>
  \<^verbatim>\<open>
  async sendEmail(emailData) {
    try {
      if (!this.apiKey) { throw new Error('Resend API key is not configured'); }
      const response = await axios.post('https://api.resend.com/emails', emailData, {
        headers: { 'Authorization': `Bearer ${this.apiKey}`, 'Content-Type': 'application/json' },
        timeout: 10000,
      });
      return response.data;
    } catch (error) { ... }
  }
  \<close>
  The error thrown for a missing key is thrown inside the \<^verbatim>\<open>try\<close>, so it passes through
  the catch block as well.
\<close>

definition resend_call :: "EmailService \<Rightarrow> email_data \<Rightarrow> network_call" where
  "resend_call svc emailData =
     AxiosPost ''https://api.resend.com/emails'' emailData
       [(''Authorization'', ''Bearer '' @ js_or (apiKey svc) []),
        (''Content-Type'', ''application/json'')]
       10000"

definition sendEmail ::
  "EmailService \<Rightarrow> (network_call \<Rightarrow> js_error + axios_response) \<Rightarrow> email_data
     \<Rightarrow> network_call list \<Rightarrow> (js_error + response_data) \<times> network_call list" where
  "sendEmail svc axios emailData calls =
     (if \<not> truthy (apiKey svc)
      then (Inl (sendEmail_catch (new_Error ''Resend API key is not configured'')), calls)
      else
        case axios (resend_call svc emailData) of
          Inr r \<Rightarrow> (Inr (data r), calls @ [resend_call svc emailData])
        | Inl error \<Rightarrow> (Inl (sendEmail_catch error), calls @ [resend_call svc emailData]))"

text \<open>
  \<^verbatim>\<open>EmailService.sendReviewRequest\<close>: render, build the payload, add \<^verbatim>\<open>reply_to\<close> when
  given, send; its own catch block logs and rethrows the error unchanged.
\<close>

definition EmailService_sendReviewRequest ::
  "EmailService \<Rightarrow> (network_call \<Rightarrow> js_error + axios_response) \<Rightarrow> nat
     \<Rightarrow> string \<Rightarrow> review_fields \<Rightarrow> string option
     \<Rightarrow> network_call list \<Rightarrow> (js_error + response_data) \<times> network_call list" where
  \<open>EmailService_sendReviewRequest svc axios currentYear toEmail f replyTo calls =
     (let htmlContent = generateReviewRequestHtml currentYear f;
          emailData =
            \<lparr>mail_from = fromName svc @ '' <'' @ fromEmail svc @ ''>'',
             mail_to = toEmail,
             subject = ''We'd love to hear your feedback on '' @ businessName f,
             html = htmlContent,
             tags = [(''type'', ''review_request''), (''business'', businessName f)],
             reply_to = (if truthy replyTo then replyTo else None)\<rparr>
      in sendEmail svc axios emailData calls)\<close>

subsection \<open>services/sms-service.js\<close>

text \<open>
  \<^verbatim>\<open>
  constructor() {
    this.accountSid = process.env.TWILIO_ACCOUNT_SID;
    this.authToken = process.env.TWILIO_AUTH_TOKEN;
    this.fromNumber = process.env.TWILIO_PHONE_NUMBER;
    if (this.accountSid && this.authToken) {
      this.client = twilio(this.accountSid, this.authToken);
    }
  }
  \<close>
  The client is represented by the credentials it was made from.
\<close>

record SmsService =
  accountSid :: "string option"
  authToken :: "string option"
  fromNumber :: "string option"
  client :: "(string \<times> string) option"

definition new_SmsService :: "(string \<rightharpoonup> string) \<Rightarrow> SmsService" where
  "new_SmsService env =
     \<lparr>accountSid = env ''TWILIO_ACCOUNT_SID'',
      authToken = env ''TWILIO_AUTH_TOKEN'',
      fromNumber = env ''TWILIO_PHONE_NUMBER'',
      client =
        (if truthy (env ''TWILIO_ACCOUNT_SID'') \<and> truthy (env ''TWILIO_AUTH_TOKEN'')
         then Some (js_or (env ''TWILIO_ACCOUNT_SID'') [], js_or (env ''TWILIO_AUTH_TOKEN'') [])
         else None)\<rparr>"



section \<open>Routes: routes/email-routes.js and routes/sms-routes.js\<close>

text \<open>
  A request body has string entries and, optionally, \<^verbatim>\<open>customData\<close>. The validators of
  express-validator (\<^verbatim>\<open>isEmail\<close>, \<^verbatim>\<open>isURL\<close>, \<^verbatim>\<open>isMobilePhone\<close>) belong to a library and
  are parameters; \<^verbatim>\<open>notEmpty\<close> accepts every string but the empty one. A validator sees
  an absent entry as the empty string, and a check marked \<^verbatim>\<open>optional()\<close> is skipped
  for an absent entry.
\<close>

record request_body =
  entries :: "string \<rightharpoonup> string"
  body_customData :: "custom_data option"

record validators =
  isEmail :: "string \<Rightarrow> bool"
  isURL :: "string \<Rightarrow> bool"
  isMobilePhone :: "string \<Rightarrow> bool"

definition notEmpty :: "string \<Rightarrow> bool" where
  "notEmpty s = (s \<noteq> [])"

record validation_error =
  param :: string
  msg :: string
  given :: "string option"

type_synonym check = "string \<times> bool \<times> (string \<Rightarrow> bool) \<times> string"

fun run_check :: "request_body \<Rightarrow> check \<Rightarrow> validation_error list" where
  "run_check req (field, optional, valid, m) =
     (case entries req field of
        None \<Rightarrow>
          if optional \<or> valid [] then []
          else [\<lparr>param = field, msg = m, given = None\<rparr>]
      | Some v \<Rightarrow>
          if valid v then []
          else [\<lparr>param = field, msg = m, given = Some v\<rparr>])"

text \<open>\<^verbatim>\<open>validationResult(req)\<close>: the errors of the checks of a chain, in order.\<close>

definition validationResult :: "check list \<Rightarrow> request_body \<Rightarrow> validation_error list" where
  "validationResult chain req = concat (map (run_check req) chain)"

definition email_review_chain :: "validators \<Rightarrow> check list" where
  "email_review_chain V =
     [(''toEmail'', False, isEmail V, ''Valid email address required''),
      (''customerName'', False, notEmpty, ''Customer name is required''),
      (''businessName'', False, notEmpty, ''Business name is required''),
      (''reviewLink'', False, isURL V, ''Valid review link URL is required''),
      (''replyTo'', True, isEmail V, ''Reply-to must be a valid email if provided'')]"

definition sms_review_chain :: "validators \<Rightarrow> check list" where
  "sms_review_chain V =
     [(''phoneNumber'', False, isMobilePhone V, ''Valid phone number required''),
      (''customerName'', False, notEmpty, ''Customer name is required''),
      (''businessName'', False, notEmpty, ''Business name is required''),
      (''reviewLink'', False, isURL V, ''Valid review link URL is required'')]"

text \<open>
  What a handler does with the response object: \<^verbatim>\<open>res.status(n).json(...)\<close> with the
  list of validation errors or with the result of the service, or \<^verbatim>\<open>next(error)\<close>.
\<close>

datatype 'r json_body = Errors "validation_error list" | Success string 'r

datatype 'r handler_result = Json nat "'r json_body" | Next js_error

definition entry :: "request_body \<Rightarrow> string \<Rightarrow> string" where
  "entry req k = (case entries req k of None \<Rightarrow> [] | Some v \<Rightarrow> v)"

definition body_fields :: "request_body \<Rightarrow> review_fields" where
  "body_fields req =
     \<lparr>customerName = entry req ''customerName'',
      businessName = entry req ''businessName'',
      reviewLink = entry req ''reviewLink'',
      customData = body_customData req\<rparr>"

text \<open>
  \<^verbatim>\<open>
  router.post('/review-request', [ ...checks... ], async (req, res, next) => {
    try {
      const errors = validationResult(req);
      if (!errors.isEmpty()) {
        return res.status(400).json({ success: false, errors: errors.array() });
      }
      const { toEmail, customerName, businessName, reviewLink, replyTo, customData } = req.body;
      const result = await emailService.sendReviewRequest({ ... });
      res.status(200).json({ success: true, message: 'Email sent successfully', data: result });
    } catch (error) { next(error); }
  });
  \<close>
  The service operation is a parameter of the handler, acting on a state of any type, so
  that a statement about the handler holds for the real service and for every test
  double.
\<close>

definition email_review_request_handler ::
  "validators \<Rightarrow> (string \<Rightarrow> review_fields \<Rightarrow> string option \<Rightarrow> 'w \<Rightarrow> (js_error + 'r) \<times> 'w)
     \<Rightarrow> request_body \<Rightarrow> 'w \<Rightarrow> 'r handler_result \<times> 'w" where
  "email_review_request_handler V sendReviewRequest req w =
     (let errors = validationResult (email_review_chain V) req
      in if errors \<noteq> [] then (Json 400 (Errors errors), w)
         else
           case sendReviewRequest (entry req ''toEmail'') (body_fields req)
                  (entries req ''replyTo'') w of
             (Inr result, w') \<Rightarrow> (Json 200 (Success ''Email sent successfully'' result), w')
           | (Inl error, w') \<Rightarrow> (Next error, w'))"

definition sms_review_request_handler ::
  "validators \<Rightarrow> (string \<Rightarrow> review_fields \<Rightarrow> 'w \<Rightarrow> (js_error + 'r) \<times> 'w)
     \<Rightarrow> request_body \<Rightarrow> 'w \<Rightarrow> 'r handler_result \<times> 'w" where
  "sms_review_request_handler V sendReviewRequest req w =
     (let errors = validationResult (sms_review_chain V) req
      in if errors \<noteq> [] then (Json 400 (Errors errors), w)
         else
           case sendReviewRequest (entry req ''phoneNumber'') (body_fields req) w of
             (Inr result, w') \<Rightarrow> (Json 200 (Success ''SMS sent successfully'' result), w')
           | (Inl error, w') \<Rightarrow> (Next error, w'))"

text \<open>
  Test doubles: a send operation that counts its invocations and succeeds, and stand-ins
  for the validators of the library.
\<close>

definition counting_send :: "'r \<Rightarrow> nat \<Rightarrow> (js_error + 'r) \<times> nat" where
  "counting_send ack n = (Inr ack, Suc n)"

definition stub_validators :: validators where
  "stub_validators =
     \<lparr>isEmail = (\<lambda>s. CHR ''@'' \<in> set s),
      isURL = (\<lambda>s. prefix ''http'' s),
      isMobilePhone = (\<lambda>s. prefix ''+'' s)\<rparr>"


section \<open>Liveness scheduler: server-keepalive.js\<close>

text \<open>
  \<^verbatim>\<open>
  constructor() {
    this.serverUrl = process.env.RENDER_EXTERNAL_URL || 'http://localhost:3000';
    this.enabled = process.env.NODE_ENV === 'production';
    this.stats = { totalPings: 0, successfulPings: 0, failedPings: 0,
                   lastPingTime: null, startTime: new Date() };
  }
  \<close>
  Times are numbers read from the clock. The jobs registered with \<^verbatim>\<open>cron.schedule\<close> and
  \<^verbatim>\<open>setTimeout\<close> live in the runtime; the model keeps them in the field \<open>timers\<close>. The
  callback of each of them is \<^verbatim>\<open>performSelfPing\<close>.
\<close>

record stats =
  totalPings :: nat
  successfulPings :: nat
  failedPings :: nat
  lastPingTime :: "nat option"
  startTime :: nat

datatype timer = CronJob string | Timeout nat

record ServerKeepAlive =
  serverUrl :: string
  enabled :: bool
  stats :: stats
  timers :: "timer list"

definition new_ServerKeepAlive :: "(string \<rightharpoonup> string) \<Rightarrow> nat \<Rightarrow> ServerKeepAlive" where
  "new_ServerKeepAlive env now =
     \<lparr>serverUrl = js_or (env ''RENDER_EXTERNAL_URL'') ''http://localhost:3000'',
      enabled = (env ''NODE_ENV'' = Some ''production''),
      stats = \<lparr>totalPings = 0, successfulPings = 0, failedPings = 0,
               lastPingTime = None, startTime = now\<rparr>,
      timers = []\<rparr>"

text \<open>
  \<^verbatim>\<open>
  start() {
    if (!this.enabled) { return; }
    cron.schedule('*/14 * * * *', async () => { await this.performSelfPing(); });
    setTimeout(() => { this.performSelfPing(); }, 5000);
  }
  \<close>
\<close>

definition start :: "ServerKeepAlive \<Rightarrow> ServerKeepAlive" where
  "start ka =
     (if \<not> enabled ka then ka
      else ka\<lparr>timers := timers ka @ [CronJob ''*/14 * * * *'', Timeout 5000]\<rparr>)"

text \<open>
  \<^verbatim>\<open>
  async performSelfPing() {
    this.stats.totalPings++;
    this.stats.lastPingTime = new Date();
    try {
      const response = await axios.get(`${this.serverUrl}/health`, { timeout: 30000, ... });
      if (response.status === 200) { this.stats.successfulPings++; }
    } catch (error) {
      this.stats.failedPings++;
    }
  }
  \<close>
  The outcome of the awaited request is a parameter: a response, or the error thrown.
  The counters are only ever incremented, so the order in which overlapping ticks finish
  does not change them; the model runs each tick to its end before the next one.
\<close>

definition performSelfPing :: "nat \<Rightarrow> js_error + axios_response \<Rightarrow> ServerKeepAlive \<Rightarrow> ServerKeepAlive" where
  "performSelfPing now outcome ka =
     (let s = (stats ka)\<lparr>totalPings := totalPings (stats ka) + 1, lastPingTime := Some now\<rparr>
      in case outcome of
           Inr r \<Rightarrow>
             if status r = 200 then ka\<lparr>stats := s\<lparr>successfulPings := successfulPings s + 1\<rparr>\<rparr>
             else ka\<lparr>stats := s\<rparr>
         | Inl error \<Rightarrow> ka\<lparr>stats := s\<lparr>failedPings := failedPings s + 1\<rparr>\<rparr>)"

text \<open>A sequence of ticks, each with the time it starts at and the outcome of its request.\<close>

fun run_ticks :: "(nat \<times> (js_error + axios_response)) list \<Rightarrow> ServerKeepAlive \<Rightarrow> ServerKeepAlive" where
  "run_ticks [] ka = ka"
| "run_ticks ((now, outcome) # ts) ka = run_ticks ts (performSelfPing now outcome ka)"

definition failed_tick :: "nat \<times> (js_error + axios_response) \<Rightarrow> bool" where
  "failed_tick t = (case snd t of Inl e \<Rightarrow> True | Inr r \<Rightarrow> False)"

definition ok_tick :: "nat \<times> (js_error + axios_response) \<Rightarrow> bool" where
  "ok_tick t = (case snd t of Inl e \<Rightarrow> False | Inr r \<Rightarrow> status r = 200)"

definition other_tick :: "nat \<times> (js_error + axios_response) \<Rightarrow> bool" where
  "other_tick t = (case snd t of Inl e \<Rightarrow> False | Inr r \<Rightarrow> status r \<noteq> 200)"

text \<open>
  One firing of the cron schedule: every registered cron job runs its callback once;
  \<open>outcomes i\<close> is the outcome of the request of the \<open>i\<close>-th job.
\<close>

definition cron_jobs :: "ServerKeepAlive \<Rightarrow> nat" where
  "cron_jobs ka = length (filter (\<lambda>t. case t of CronJob e \<Rightarrow> True | Timeout d \<Rightarrow> False) (timers ka))"

definition warmup_timers :: "ServerKeepAlive \<Rightarrow> nat" where
  "warmup_timers ka = length (filter (\<lambda>t. case t of CronJob e \<Rightarrow> False | Timeout d \<Rightarrow> True) (timers ka))"

definition cron_tick :: "nat \<Rightarrow> (nat \<Rightarrow> js_error + axios_response) \<Rightarrow> ServerKeepAlive \<Rightarrow> ServerKeepAlive" where
  "cron_tick now outcomes ka =
     fold (\<lambda>i. performSelfPing now (outcomes i)) [0..<cron_jobs ka] ka"


section \<open>Properties of the sanitizer\<close>

lemma replace_all_char_append:
  "replace_all_char c r (xs @ ys) = replace_all_char c r xs @ replace_all_char c r ys"
  by (simp add: replace_all_char_def)

lemma replace_all_char_concat:
  "replace_all_char c r (concat xss) = concat (map (replace_all_char c r) xss)"
  by (induction xss) (simp_all add: replace_all_char_append, simp add: replace_all_char_def)

lemma replace_all_char_absent:
  "c \<notin> set s \<Longrightarrow> replace_all_char c r s = s"
  by (induction s) (auto simp: replace_all_char_def)

lemma replace_all_char_concat_map:
  "replace_all_char c r (concat (map f s)) = concat (map (\<lambda>x. replace_all_char c r (f x)) s)"
  by (simp add: replace_all_char_concat comp_def)

lemma five_passes_one_char:
  \<open>replace_all_char (CHR 0x27) ''&#039;''
     (replace_all_char (CHR 0x22) ''&quot;''
       (replace_all_char CHR ''>'' ''&gt;''
         (replace_all_char CHR ''<'' ''&lt;''
           (if x = CHR ''&'' then ''&amp;'' else [x])))) = escape_char x\<close>
  by (simp add: replace_all_char_def escape_char_def)

lemma escapeHtml_charwise: "escapeHtml s = concat (map escape_char s)"
proof -
  have "replace_all_char CHR ''&'' ''&amp;'' s
          = concat (map (\<lambda>x. if x = CHR ''&'' then ''&amp;'' else [x]) s)"
    by (simp add: replace_all_char_def)
  then show ?thesis
    unfolding escapeHtml_def
    by (simp only: replace_all_char_concat_map five_passes_one_char)
qed

lemma escape_char_no_markup:
  \<open>set (escape_char c) \<inter> {CHR ''<'', CHR ''>'', CHR 0x22, CHR 0x27} = {}\<close>
  by (simp add: escape_char_def)

lemma escapeHtml_no_markup:
  \<open>set (escapeHtml s) \<inter> {CHR ''<'', CHR ''>'', CHR 0x22, CHR 0x27} = {}\<close>
  using escape_char_no_markup by (fastforce simp: escapeHtml_charwise)

lemma amp_starts_entity_escape_char:
  "amp_starts_entity rest \<Longrightarrow> amp_starts_entity (escape_char c @ rest)"
  by (simp add: escape_char_def html_entities_def)

lemma amp_starts_entity_escapeHtml: "amp_starts_entity (escapeHtml s)"
  unfolding escapeHtml_charwise
  by (induction s) (simp_all add: amp_starts_entity_escape_char)

lemma amp_starts_entity_at:
  "amp_starts_entity t \<Longrightarrow> t = p @ CHR ''&'' # q
     \<Longrightarrow> \<exists>e \<in> set html_entities. prefix e (CHR ''&'' # q)"
  by (induction p arbitrary: t) auto

text \<open>
  C4. For every input string, the output of escapeHtml contains no literal
  \<^verbatim>\<open><\<close>, \<^verbatim>\<open>>\<close>, double quote or single quote; every ampersand of the output is the
  first character of one of the five entities; and the output is the input with each of
  the five significant characters replaced by its entity and every other character kept,
  so that no entity written by one pass is escaped again by a later pass.
\<close>

theorem escapeHtml_output_escaped:
  \<open>(\<forall>c \<in> set (escapeHtml s). c \<notin> {CHR ''<'', CHR ''>'', CHR 0x22, CHR 0x27})
   \<and> (\<forall>p q. escapeHtml s = p @ CHR ''&'' # q
         \<longrightarrow> (\<exists>e \<in> set html_entities. prefix e (CHR ''&'' # q)))
   \<and> escapeHtml s = concat (map escape_char s)\<close>
proof (intro conjI)
  show \<open>\<forall>c \<in> set (escapeHtml s). c \<notin> {CHR ''<'', CHR ''>'', CHR 0x22, CHR 0x27}\<close>
    using escapeHtml_no_markup [of s] by blast
  show \<open>\<forall>p q. escapeHtml s = p @ CHR ''&'' # q
          \<longrightarrow> (\<exists>e \<in> set html_entities. prefix e (CHR ''&'' # q))\<close>
    using amp_starts_entity_at [OF amp_starts_entity_escapeHtml] by blast
  show "escapeHtml s = concat (map escape_char s)"
    by (rule escapeHtml_charwise)
qed

theorem escapeHtml_output_escaped_witness:
  \<open>escapeHtml ''<b>Tom & Jerry's</b>'' = ''&lt;b&gt;Tom '' @ CHR ''&'' # ''amp; Jerry&#039;s&lt;/b&gt;''
   \<and> CHR ''<'' \<notin> set (escapeHtml ''<b>Tom & Jerry's</b>'')
   \<and> CHR 0x27 \<notin> set (escapeHtml ''<b>Tom & Jerry's</b>'')
   \<and> (\<exists>e \<in> set html_entities. prefix e (CHR ''&'' # ''amp; Jerry&#039;s&lt;/b&gt;''))\<close>
proof -
  have eq: \<open>escapeHtml ''<b>Tom & Jerry's</b>''
              = ''&lt;b&gt;Tom '' @ CHR ''&'' # ''amp; Jerry&#039;s&lt;/b&gt;''\<close>
    by (simp add: escapeHtml_def replace_all_char_def)
  note inst = escapeHtml_output_escaped [of \<open>''<b>Tom & Jerry's</b>''\<close>]
  from inst have a: \<open>CHR ''<'' \<notin> set (escapeHtml ''<b>Tom & Jerry's</b>'')
                     \<and> CHR 0x27 \<notin> set (escapeHtml ''<b>Tom & Jerry's</b>'')\<close>
    by blast
  from inst eq have b: \<open>\<exists>e \<in> set html_entities. prefix e (CHR ''&'' # ''amp; Jerry&#039;s&lt;/b&gt;'')\<close>
    by blast
  from eq a b show ?thesis by blast
qed

lemma set_replace_all_char:
  "set (replace_all_char c r s) \<subseteq> (set s - {c}) \<union> set r"
  by (induction s) (auto simp: replace_all_char_def)

lemma length_replace_all_char_le:
  "r \<noteq> [] \<Longrightarrow> length s \<le> length (replace_all_char c r s)"
proof (induction s)
  case Nil
  then show ?case by (simp add: replace_all_char_def)
next
  case (Cons x s)
  from Cons.prems have "1 \<le> length r" by (cases r) simp_all
  with Cons show ?case by (simp add: replace_all_char_def)
qed

lemma length_replace_all_char_less:
  assumes "c \<in> set s" and "2 \<le> length r"
  shows "length s < length (replace_all_char c r s)"
  using assms(1)
proof (induction s)
  case Nil
  then show ?case by simp
next
  case (Cons x s)
  from assms(2) have ne: "r \<noteq> []" by auto
  show ?case
  proof (cases "x = c")
    case True
    have "length s \<le> length (replace_all_char c r s)"
      using ne by (rule length_replace_all_char_le)
    with True assms(2) show ?thesis by (simp add: replace_all_char_def)
  next
    case False
    with Cons have "length s < length (replace_all_char c r s)" by simp
    with False show ?thesis by (simp add: replace_all_char_def)
  qed
qed

lemma escapeHtml_second_pass:
  \<open>escapeHtml (escapeHtml x) = replace_all_char CHR ''&'' ''&amp;'' (escapeHtml x)\<close>
proof -
  let ?t = \<open>replace_all_char CHR ''&'' ''&amp;'' (escapeHtml x)\<close>
  have sub: \<open>set ?t \<subseteq> (set (escapeHtml x) - {CHR ''&''}) \<union> set ''&amp;''\<close>
    by (rule set_replace_all_char)
  have free: \<open>set (escapeHtml x) \<inter> {CHR ''<'', CHR ''>'', CHR 0x22, CHR 0x27} = {}\<close>
    by (rule escapeHtml_no_markup)
  from sub free have \<open>CHR ''<'' \<notin> set ?t\<close> \<open>CHR ''>'' \<notin> set ?t\<close>
    \<open>CHR 0x22 \<notin> set ?t\<close> \<open>CHR 0x27 \<notin> set ?t\<close>
    by auto
  then show ?thesis
    unfolding escapeHtml_def [of "escapeHtml x"]
    by (simp add: replace_all_char_absent)
qed

lemma amp_in_escape_char:
  \<open>c \<in> html_significant \<Longrightarrow> CHR ''&'' \<in> set (escape_char c)\<close>
  by (auto simp: html_significant_def escape_char_def)

lemma amp_in_escapeHtml:
  assumes "c \<in> set x" and "c \<in> html_significant"
  shows \<open>CHR ''&'' \<in> set (escapeHtml x)\<close>
  using assms amp_in_escape_char by (auto simp: escapeHtml_charwise)

lemma escapeHtml_plain:
  assumes "set x \<inter> html_significant = {}"
  shows "escapeHtml x = x"
proof -
  from assms have \<open>CHR ''&'' \<notin> set x\<close> \<open>CHR ''<'' \<notin> set x\<close> \<open>CHR ''>'' \<notin> set x\<close>
    \<open>CHR 0x22 \<notin> set x\<close> \<open>CHR 0x27 \<notin> set x\<close>
    by (auto simp: html_significant_def)
  then show ?thesis by (simp add: escapeHtml_def replace_all_char_absent)
qed

text \<open>
  C9. escapeHtml is not idempotent, and the difference is bounded: a second application
  changes the result of the first only by replacing each of its ampersands (those of the
  entities the first application wrote) with \<^verbatim>\<open>&amp;\<close>. Whenever the input holds one of
  the five significant characters the two results differ; for an input without any of
  them both applications return the input.
\<close>

theorem escapeHtml_twice:
  \<open>escapeHtml (escapeHtml x) = replace_all_char CHR ''&'' ''&amp;'' (escapeHtml x)
   \<and> (set x \<inter> html_significant \<noteq> {} \<longrightarrow> escapeHtml (escapeHtml x) \<noteq> escapeHtml x)
   \<and> (set x \<inter> html_significant = {} \<longrightarrow> escapeHtml (escapeHtml x) = x)\<close>
proof (intro conjI impI)
  show \<open>escapeHtml (escapeHtml x) = replace_all_char CHR ''&'' ''&amp;'' (escapeHtml x)\<close>
    by (rule escapeHtml_second_pass)
next
  assume "set x \<inter> html_significant \<noteq> {}"
  then obtain c where "c \<in> set x" "c \<in> html_significant" by blast
  then have \<open>CHR ''&'' \<in> set (escapeHtml x)\<close> by (rule amp_in_escapeHtml)
  then have \<open>length (escapeHtml x)
               < length (replace_all_char CHR ''&'' ''&amp;'' (escapeHtml x))\<close>
    by (rule length_replace_all_char_less) simp
  then have \<open>replace_all_char CHR ''&'' ''&amp;'' (escapeHtml x) \<noteq> escapeHtml x\<close>
    by force
  then show "escapeHtml (escapeHtml x) \<noteq> escapeHtml x"
    by (simp only: escapeHtml_second_pass) simp
next
  assume "set x \<inter> html_significant = {}"
  then show "escapeHtml (escapeHtml x) = x" by (simp add: escapeHtml_plain)
qed

theorem escapeHtml_twice_witness:
  \<open>escapeHtml ''a<b'' = ''a&lt;b''
   \<and> escapeHtml (escapeHtml ''a<b'') = ''a&amp;lt;b''
   \<and> escapeHtml (escapeHtml ''a<b'') \<noteq> escapeHtml ''a<b''
   \<and> escapeHtml (escapeHtml ''ab'') = ''ab''\<close>
proof -
  have sig: \<open>set ''a<b'' \<inter> html_significant \<noteq> {}\<close>
    by (simp add: html_significant_def)
  have plain: \<open>set ''ab'' \<inter> html_significant = {}\<close>
    by (simp add: html_significant_def)
  have one: \<open>escapeHtml ''a<b'' = ''a&lt;b''\<close>
    by (simp add: escapeHtml_def replace_all_char_def)
  have two: \<open>escapeHtml (escapeHtml ''a<b'') = ''a&amp;lt;b''\<close>
    using escapeHtml_twice [of \<open>''a<b''\<close>] by (simp add: one replace_all_char_def)
  have differ: \<open>escapeHtml (escapeHtml ''a<b'') \<noteq> escapeHtml ''a<b''\<close>
    using escapeHtml_twice [of \<open>''a<b''\<close>] sig by blast
  have fixed: \<open>escapeHtml (escapeHtml ''ab'') = ''ab''\<close>
    using escapeHtml_twice [of \<open>''ab''\<close>] plain by blast
  from one two differ fixed show ?thesis by blast
qed

section \<open>Properties of the routes\<close>

lemma email_handler_rejects:
  assumes "validationResult (email_review_chain V) req \<noteq> []"
  shows "email_review_request_handler V send req w
           = (Json 400 (Errors (validationResult (email_review_chain V) req)), w)"
  using assms by (simp add: email_review_request_handler_def Let_def)

lemma sms_handler_rejects:
  assumes "validationResult (sms_review_chain V) req \<noteq> []"
  shows "sms_review_request_handler V send req w
           = (Json 400 (Errors (validationResult (sms_review_chain V) req)), w)"
  using assms by (simp add: sms_review_request_handler_def Let_def)

text \<open>
  The email handler wired to the real service, as the repository wires it: a rejected
  request leaves the list of provider calls as it was.
\<close>

lemma rejected_request_makes_no_provider_call:
  assumes "validationResult (email_review_chain V) req \<noteq> []"
  shows "snd (email_review_request_handler V
                (EmailService_sendReviewRequest svc axios currentYear) req calls) = calls"
  using assms by (simp add: email_handler_rejects)

lemma run_check_rejects:
  assumes "\<not> valid (entry req field)"
  shows "run_check req (field, False, valid, m) \<noteq> []"
  using assms by (cases "entries req field") (simp_all add: entry_def)

lemma validationResult_fails:
  assumes "c \<in> set chain" and "run_check req c \<noteq> []"
  shows "validationResult chain req \<noteq> []"
  using assms by (auto simp: validationResult_def)

lemma email_chain_rejects:
  assumes "\<not> isEmail V (entry req ''toEmail'') \<or> entry req ''customerName'' = []
             \<or> entry req ''businessName'' = [] \<or> \<not> isURL V (entry req ''reviewLink'')"
  shows "validationResult (email_review_chain V) req \<noteq> []"
proof -
  let ?c1 = "(''toEmail'', False, isEmail V, ''Valid email address required'')"
  let ?c2 = "(''customerName'', False, notEmpty, ''Customer name is required'')"
  let ?c3 = "(''businessName'', False, notEmpty, ''Business name is required'')"
  let ?c4 = "(''reviewLink'', False, isURL V, ''Valid review link URL is required'')"
  have m: "?c1 \<in> set (email_review_chain V)" "?c2 \<in> set (email_review_chain V)"
    "?c3 \<in> set (email_review_chain V)" "?c4 \<in> set (email_review_chain V)"
    by (simp_all add: email_review_chain_def)
  from assms consider "\<not> isEmail V (entry req ''toEmail'')"
    | "\<not> notEmpty (entry req ''customerName'')"
    | "\<not> notEmpty (entry req ''businessName'')"
    | "\<not> isURL V (entry req ''reviewLink'')"
    by (auto simp: notEmpty_def)
  then show ?thesis
  proof cases
    case 1
    then show ?thesis using validationResult_fails [OF m(1)] run_check_rejects by blast
  next
    case 2
    then show ?thesis using validationResult_fails [OF m(2)] run_check_rejects by blast
  next
    case 3
    then show ?thesis using validationResult_fails [OF m(3)] run_check_rejects by blast
  next
    case 4
    then show ?thesis using validationResult_fails [OF m(4)] run_check_rejects by blast
  qed
qed

lemma sms_chain_rejects:
  assumes "\<not> isMobilePhone V (entry req ''phoneNumber'') \<or> entry req ''customerName'' = []
             \<or> entry req ''businessName'' = [] \<or> \<not> isURL V (entry req ''reviewLink'')"
  shows "validationResult (sms_review_chain V) req \<noteq> []"
proof -
  let ?c1 = "(''phoneNumber'', False, isMobilePhone V, ''Valid phone number required'')"
  let ?c2 = "(''customerName'', False, notEmpty, ''Customer name is required'')"
  let ?c3 = "(''businessName'', False, notEmpty, ''Business name is required'')"
  let ?c4 = "(''reviewLink'', False, isURL V, ''Valid review link URL is required'')"
  have m: "?c1 \<in> set (sms_review_chain V)" "?c2 \<in> set (sms_review_chain V)"
    "?c3 \<in> set (sms_review_chain V)" "?c4 \<in> set (sms_review_chain V)"
    by (simp_all add: sms_review_chain_def)
  from assms consider "\<not> isMobilePhone V (entry req ''phoneNumber'')"
    | "\<not> notEmpty (entry req ''customerName'')"
    | "\<not> notEmpty (entry req ''businessName'')"
    | "\<not> isURL V (entry req ''reviewLink'')"
    by (auto simp: notEmpty_def)
  then show ?thesis
  proof cases
    case 1
    then show ?thesis using validationResult_fails [OF m(1)] run_check_rejects by blast
  next
    case 2
    then show ?thesis using validationResult_fails [OF m(2)] run_check_rejects by blast
  next
    case 3
    then show ?thesis using validationResult_fails [OF m(3)] run_check_rejects by blast
  next
    case 4
    then show ?thesis using validationResult_fails [OF m(4)] run_check_rejects by blast
  qed
qed

text \<open>
  C1. Whenever the body of a review-request fails validation (the validation result is
  not empty), the email handler and the SMS handler answer with status 400 and the list
  of validation errors, and the state the send operation acts on is returned unchanged,
  whatever the send operation is: the operation is not invoked. Validation does fail
  when the validator of the channel rejects the recipient, when \<^verbatim>\<open>customerName\<close> or
  \<^verbatim>\<open>businessName\<close> is absent or empty, and when the validator rejects the review link.
\<close>

theorem validation_failure_short_circuits:
  "(validationResult (email_review_chain V) req \<noteq> [] \<longrightarrow>
      email_review_request_handler V send_email req w
        = (Json 400 (Errors (validationResult (email_review_chain V) req)), w))
   \<and> (validationResult (sms_review_chain V) req \<noteq> [] \<longrightarrow>
      sms_review_request_handler V send_sms req w
        = (Json 400 (Errors (validationResult (sms_review_chain V) req)), w))
   \<and> (\<not> isEmail V (entry req ''toEmail'') \<longrightarrow>
      validationResult (email_review_chain V) req \<noteq> [])
   \<and> (\<not> isMobilePhone V (entry req ''phoneNumber'') \<longrightarrow>
      validationResult (sms_review_chain V) req \<noteq> [])
   \<and> (entry req ''customerName'' = [] \<or> entry req ''businessName'' = []
        \<or> \<not> isURL V (entry req ''reviewLink'') \<longrightarrow>
      validationResult (email_review_chain V) req \<noteq> []
      \<and> validationResult (sms_review_chain V) req \<noteq> [])"
proof (intro conjI impI)
  assume "validationResult (email_review_chain V) req \<noteq> []"
  then show "email_review_request_handler V send_email req w
               = (Json 400 (Errors (validationResult (email_review_chain V) req)), w)"
    by (rule email_handler_rejects)
next
  assume "validationResult (sms_review_chain V) req \<noteq> []"
  then show "sms_review_request_handler V send_sms req w
               = (Json 400 (Errors (validationResult (sms_review_chain V) req)), w)"
    by (rule sms_handler_rejects)
next
  assume "\<not> isEmail V (entry req ''toEmail'')"
  then show "validationResult (email_review_chain V) req \<noteq> []"
    by (simp add: email_chain_rejects)
next
  assume "\<not> isMobilePhone V (entry req ''phoneNumber'')"
  then show "validationResult (sms_review_chain V) req \<noteq> []"
    by (simp add: sms_chain_rejects)
next
  assume a: "entry req ''customerName'' = [] \<or> entry req ''businessName'' = []
               \<or> \<not> isURL V (entry req ''reviewLink'')"
  then show "validationResult (email_review_chain V) req \<noteq> []"
    using email_chain_rejects [of V req] by blast
  from a show "validationResult (sms_review_chain V) req \<noteq> []"
    using sms_chain_rejects [of V req] by blast
qed

theorem validation_failure_short_circuits_witness:
  "email_review_request_handler stub_validators (\<lambda>t f r. counting_send ''x1'')
     \<lparr>entries = [''toEmail'' \<mapsto> ''not-an-email'', ''customerName'' \<mapsto> ''Jane'',
                 ''businessName'' \<mapsto> ''Acme'', ''reviewLink'' \<mapsto> ''https://g.co/r''],
      body_customData = None\<rparr> (0::nat)
   = (Json 400 (Errors [\<lparr>param = ''toEmail'', msg = ''Valid email address required'',
                          given = Some ''not-an-email''\<rparr>]), 0)
   \<and> sms_review_request_handler stub_validators (\<lambda>t f. counting_send ''x1'')
     \<lparr>entries = [''phoneNumber'' \<mapsto> ''+15550100'', ''businessName'' \<mapsto> ''Acme'',
                 ''reviewLink'' \<mapsto> ''https://g.co/r''],
      body_customData = None\<rparr> (0::nat)
   = (Json 400 (Errors [\<lparr>param = ''customerName'', msg = ''Customer name is required'',
                          given = None\<rparr>]), 0)"
proof -
  let ?e = "\<lparr>entries = [''toEmail'' \<mapsto> ''not-an-email'', ''customerName'' \<mapsto> ''Jane'',
                 ''businessName'' \<mapsto> ''Acme'', ''reviewLink'' \<mapsto> ''https://g.co/r''],
              body_customData = None\<rparr>"
  let ?s = "\<lparr>entries = [''phoneNumber'' \<mapsto> ''+15550100'', ''businessName'' \<mapsto> ''Acme'',
                 ''reviewLink'' \<mapsto> ''https://g.co/r''],
              body_customData = None\<rparr>"
  have ve: "validationResult (email_review_chain stub_validators) ?e
              = [\<lparr>param = ''toEmail'', msg = ''Valid email address required'',
                   given = Some ''not-an-email''\<rparr>]"
    by (simp add: validationResult_def email_review_chain_def stub_validators_def notEmpty_def)
  have vs: "validationResult (sms_review_chain stub_validators) ?s
              = [\<lparr>param = ''customerName'', msg = ''Customer name is required'',
                   given = None\<rparr>]"
    by (simp add: validationResult_def sms_review_chain_def stub_validators_def notEmpty_def)
  note e1 = validation_failure_short_circuits
              [where V = stub_validators and req = ?e and w = "0::nat"
                 and send_email = "\<lambda>t f r. counting_send ''x1''", THEN conjunct1]
  note s1 = validation_failure_short_circuits
              [where V = stub_validators and req = ?s and w = "0::nat"
                 and send_sms = "\<lambda>t f. counting_send ''x1''", THEN conjunct2, THEN conjunct1]
  have ne: "validationResult (email_review_chain stub_validators) ?e \<noteq> []"
    by (simp only: ve) simp
  have ns: "validationResult (sms_review_chain stub_validators) ?s \<noteq> []"
    by (simp only: vs) simp
  from e1 ne
  have he: "email_review_request_handler stub_validators (\<lambda>t f r. counting_send ''x1'') ?e (0::nat)
              = (Json 400 (Errors (validationResult (email_review_chain stub_validators) ?e)), 0)"
    by (rule mp)
  from s1 ns
  have hs: "sms_review_request_handler stub_validators (\<lambda>t f. counting_send ''x1'') ?s (0::nat)
              = (Json 400 (Errors (validationResult (sms_review_chain stub_validators) ?s)), 0)"
    by (rule mp)
  from he hs show ?thesis by (simp only: ve vs)
qed


section \<open>Properties of the provider clients\<close>



lemma new_EmailService_unconfigured:
  "\<not> truthy (env ''RESEND_API_KEY'') \<Longrightarrow> \<not> truthy (apiKey (new_EmailService env))"
  by (simp add: new_EmailService_def)

lemma new_SmsService_unconfigured:
  assumes "\<not> truthy (env ''TWILIO_ACCOUNT_SID'') \<or> \<not> truthy (env ''TWILIO_AUTH_TOKEN'')
             \<or> \<not> truthy (env ''TWILIO_PHONE_NUMBER'')"
  shows "client (new_SmsService env) = None \<or> \<not> truthy (fromNumber (new_SmsService env))"
  using assms by (auto simp: new_SmsService_def)



lemma sendEmail_failure:
  assumes "truthy (apiKey svc)" and "axios (resend_call svc emailData) = Inl error"
  shows "sendEmail svc axios emailData calls
           = (Inl (sendEmail_catch error), calls @ [resend_call svc emailData])"
  using assms by (simp add: sendEmail_def)

text \<open>
  What the catch block throws when the body of the response, if there is a response, is
  an object: a new error with the message of the body if that is a non-empty string and
  with \<^verbatim>\<open>Failed to send email\<close> otherwise; a new error with the message
  \<^verbatim>\<open>No response from email service\<close> when there is no response but a request; the
  error caught, as it is, when there is neither.
\<close>

lemma sendEmail_failure_with_object_body:
  assumes "truthy (apiKey svc)" and "axios (resend_call svc emailData) = Inl error"
  shows "\<exists>thrown.
           fst (sendEmail svc axios emailData calls) = Inl thrown
           \<and> (\<forall>r b m. response error = Some r \<and> data r = JsonObject b
                   \<and> b ''message'' = Some m \<and> m \<noteq> []
                 \<longrightarrow> thrown = \<lparr>name = ''Error'', message = m,
                                response = None, request = False\<rparr>)
           \<and> (\<forall>r b. response error = Some r \<and> data r = JsonObject b
                   \<and> \<not> truthy (b ''message'')
                 \<longrightarrow> thrown = \<lparr>name = ''Error'', message = ''Failed to send email'',
                                response = None, request = False\<rparr>)
           \<and> (response error = None \<and> request error
                 \<longrightarrow> thrown = \<lparr>name = ''Error'', message = ''No response from email service'',
                                response = None, request = False\<rparr>)
           \<and> (response error = None \<and> \<not> request error \<longrightarrow> thrown = error)"
proof (intro exI conjI allI impI)
  show "fst (sendEmail svc axios emailData calls) = Inl (sendEmail_catch error)"
    using assms by (simp add: sendEmail_failure)
next
  fix r b m
  assume "response error = Some r \<and> data r = JsonObject b \<and> b ''message'' = Some m \<and> m \<noteq> []"
  then show "sendEmail_catch error
               = \<lparr>name = ''Error'', message = m, response = None, request = False\<rparr>"
    by (simp add: sendEmail_catch_def js_or_def new_Error_def)
next
  fix r b
  assume "response error = Some r \<and> data r = JsonObject b \<and> \<not> truthy (b ''message'')"
  then show "sendEmail_catch error
               = \<lparr>name = ''Error'', message = ''Failed to send email'',
                  response = None, request = False\<rparr>"
    by (auto simp: sendEmail_catch_def js_or_def truthy_def new_Error_def split: option.splits)
next
  assume "response error = None \<and> request error"
  then show "sendEmail_catch error
               = \<lparr>name = ''Error'', message = ''No response from email service'',
                  response = None, request = False\<rparr>"
    by (simp add: sendEmail_catch_def new_Error_def)
next
  assume "response error = None \<and> \<not> request error"
  then show "sendEmail_catch error = error"
    by (simp add: sendEmail_catch_def)
qed

text \<open>
  C3. The claim is that every failing provider call ends in one of three classes, and
  that a response with a status outside 2xx yields an error with the message of the
  provider or, without one, with \<^verbatim>\<open>Failed to send email\<close>. The code reads
  \<^verbatim>\<open>error.response.data.message\<close> without a test of the body. When the provider answers
  status 500 with the body \<^verbatim>\<open>null\<close>, the read throws inside the catch block and
  \<^verbatim>\<open>sendEmail\<close> ends with that \<^verbatim>\<open>TypeError\<close>, which is none of the three classes. With
  the body \<^verbatim>\<open>{}\<close> the same call ends with \<^verbatim>\<open>Failed to send email\<close>, and with the body
  \<^verbatim>\<open>{"message": "Invalid API key"}\<close> with the message of the provider.
\<close>

theorem null_response_body_escapes_classification:
  \<open>fst (sendEmail
          \<lparr>apiKey = Some ''re_123'', fromEmail = ''reviews@revboostapp.com'', fromName = ''RevBoost''\<rparr>
          (\<lambda>c. Inl \<lparr>name = ''AxiosError'', message = ''Request failed with status code 500'',
                     response = Some \<lparr>status = 500, data = JsonNull\<rparr>, request = True\<rparr>)
          \<lparr>mail_from = ''RevBoost <reviews@revboostapp.com>'', mail_to = ''a@b.com'',
           subject = ''RevBoost Email Test'', html = ''<p>hi</p>'', tags = [(''type'', ''test'')],
           reply_to = None\<rparr> [])
     = Inl \<lparr>name = ''TypeError'', message = ''Cannot read properties of null (reading 'message')'',
            response = None, request = False\<rparr>
   \<and> fst (sendEmail
          \<lparr>apiKey = Some ''re_123'', fromEmail = ''reviews@revboostapp.com'', fromName = ''RevBoost''\<rparr>
          (\<lambda>c. Inl \<lparr>name = ''AxiosError'', message = ''Request failed with status code 500'',
                     response = Some \<lparr>status = 500, data = JsonObject Map.empty\<rparr>, request = True\<rparr>)
          \<lparr>mail_from = ''RevBoost <reviews@revboostapp.com>'', mail_to = ''a@b.com'',
           subject = ''RevBoost Email Test'', html = ''<p>hi</p>'', tags = [(''type'', ''test'')],
           reply_to = None\<rparr> [])
     = Inl \<lparr>name = ''Error'', message = ''Failed to send email'',
            response = None, request = False\<rparr>
   \<and> fst (sendEmail
          \<lparr>apiKey = Some ''re_123'', fromEmail = ''reviews@revboostapp.com'', fromName = ''RevBoost''\<rparr>
          (\<lambda>c. Inl \<lparr>name = ''AxiosError'', message = ''Request failed with status code 401'',
                     response = Some \<lparr>status = 401,
                                        data = JsonObject [''message'' \<mapsto> ''Invalid API key'']\<rparr>,
                     request = True\<rparr>)
          \<lparr>mail_from = ''RevBoost <reviews@revboostapp.com>'', mail_to = ''a@b.com'',
           subject = ''RevBoost Email Test'', html = ''<p>hi</p>'', tags = [(''type'', ''test'')],
           reply_to = None\<rparr> [])
     = Inl \<lparr>name = ''Error'', message = ''Invalid API key'',
            response = None, request = False\<rparr>\<close>
  by (simp add: sendEmail_def truthy_def sendEmail_catch_def null_property_error_def
        new_Error_def js_or_def)


section \<open>Properties of the email template\<close>

lemma join_lines_first: "ls \<noteq> [] \<Longrightarrow> prefix (hd ls) (join_lines ls)"
  by (induction ls rule: join_lines.induct) (auto simp: prefix_def)

lemma review_html_3_eq: \<open>review_html_3 = ''" class="button">''\<close>
  by (simp add: review_html_3_def)

lemma review_html_4_start: \<open>\<exists>rest. review_html_4 = ''</a>'' @ rest\<close>
proof -
  have \<open>prefix ''</a>'' review_html_4\<close>
    unfolding review_html_4_def
    by (rule join_lines_first [THEN prefix_order.trans [rotated]]) simp_all
  then show ?thesis by (simp add: prefix_def)
qed

text \<open>
  The anchor of the button, for every input: the escaped review link closes the
  \<^verbatim>\<open>href\<close> attribute, and the label follows as \<open>button_label\<close> gives it.
\<close>

lemma generateReviewRequestHtml_button:
  \<open>sublist (escapeHtml (reviewLink f) @ ''" class="button">''
              @ button_label (customData f) @ ''</a>'')
     (generateReviewRequestHtml y f)\<close>
proof -
  obtain rest where r4: \<open>review_html_4 = ''</a>'' @ rest\<close>
    using review_html_4_start by blast
  let ?b = "escapeHtml (businessName f)"
  let ?pre = "review_html_0 @ escapeHtml (customerName f) @ review_html_1 @ ?b @ review_html_2"
  let ?post = "rest @ ?b @ review_html_5 @ ?b @ review_html_6 @ decimal y
                 @ review_html_7 @ ?b @ review_html_8"
  have \<open>generateReviewRequestHtml y f
          = ?pre @ (escapeHtml (reviewLink f) @ ''" class="button">''
                     @ button_label (customData f) @ ''</a>'') @ ?post\<close>
    by (simp add: generateReviewRequestHtml_def Let_def review_html_3_eq r4)
  then show ?thesis unfolding sublist_def by blast
qed

lemma button_label_given:
  "t \<noteq> [] \<Longrightarrow> button_label (Some \<lparr>buttonText = Some t, messageTemplate = mt\<rparr>) = t"
  by (simp add: button_label_def js_or_def)

text \<open>
  C5. The claim is that \<^verbatim>\<open>customData.buttonText\<close> is escaped before it is written into
  the HTML. The code escapes the customer name, the business name and the review link,
  and writes the button text as it is: for the button text
  \<^verbatim>\<open><script>alert(1)</script>\<close> and the review link \<^verbatim>\<open>https://g.co/r?a=1&b=2\<close> the
  output holds the link escaped and, right after it, the script element unescaped.
\<close>

theorem buttonText_written_unescaped:
  \<open>sublist ''https://g.co/r?a=1&amp;b=2" class="button"><script>alert(1)</script></a>''
     (generateReviewRequestHtml 2025
        \<lparr>customerName = ''Jane'', businessName = ''Acme'',
         reviewLink = ''https://g.co/r?a=1&b=2'',
         customData = Some \<lparr>buttonText = Some ''<script>alert(1)</script>'',
                             messageTemplate = None\<rparr>\<rparr>)\<close>
  using generateReviewRequestHtml_button
          [of \<open>\<lparr>customerName = ''Jane'', businessName = ''Acme'',
                 reviewLink = ''https://g.co/r?a=1&b=2'',
                 customData = Some \<lparr>buttonText = Some ''<script>alert(1)</script>'',
                                     messageTemplate = None\<rparr>\<rparr>\<close> 2025]
  by (simp add: escapeHtml_def replace_all_char_def button_label_def js_or_def)


section \<open>Properties of the liveness scheduler\<close>

lemma performSelfPing_stats:
  "totalPings (stats (performSelfPing now outcome ka)) = totalPings (stats ka) + 1
   \<and> lastPingTime (stats (performSelfPing now outcome ka)) = Some now
   \<and> startTime (stats (performSelfPing now outcome ka)) = startTime (stats ka)
   \<and> failedPings (stats (performSelfPing now outcome ka))
       = failedPings (stats ka) + (if failed_tick (now, outcome) then 1 else 0)
   \<and> successfulPings (stats (performSelfPing now outcome ka))
       = successfulPings (stats ka) + (if ok_tick (now, outcome) then 1 else 0)"
  by (cases outcome) (simp_all add: performSelfPing_def Let_def failed_tick_def ok_tick_def)

lemma performSelfPing_rest:
  "timers (performSelfPing now outcome ka) = timers ka
   \<and> enabled (performSelfPing now outcome ka) = enabled ka"
  by (cases outcome) (simp_all add: performSelfPing_def Let_def)

lemma run_ticks_counters:
  "totalPings (stats (run_ticks ts ka)) = totalPings (stats ka) + length ts
   \<and> failedPings (stats (run_ticks ts ka))
       = failedPings (stats ka) + length (filter failed_tick ts)
   \<and> successfulPings (stats (run_ticks ts ka))
       = successfulPings (stats ka) + length (filter ok_tick ts)"
proof (induction ts arbitrary: ka)
  case Nil
  show ?case by simp
next
  case (Cons t ts)
  obtain now outcome where t: "t = (now, outcome)" by (cases t)
  show ?case
    unfolding t run_ticks.simps
    by (simp add: Cons.IH performSelfPing_stats)
qed

lemma run_ticks_last:
  "ts \<noteq> [] \<Longrightarrow> lastPingTime (stats (run_ticks ts ka)) = Some (fst (last ts))"
proof (induction ts arbitrary: ka)
  case Nil
  then show ?case by simp
next
  case (Cons t ts)
  obtain now outcome where t: "t = (now, outcome)" by (cases t)
  show ?case
  proof (cases "ts = []")
    case True
    then show ?thesis by (simp add: t performSelfPing_stats)
  next
    case False
    with Cons.IH show ?thesis by (simp add: t)
  qed
qed

lemma tick_kinds:
  "length ts = length (filter failed_tick ts) + length (filter ok_tick ts)
                 + length (filter other_tick ts)"
proof (induction ts)
  case Nil
  show ?case by simp
next
  case (Cons t ts)
  have "(failed_tick t \<and> \<not> ok_tick t \<and> \<not> other_tick t)
        \<or> (\<not> failed_tick t \<and> ok_tick t \<and> \<not> other_tick t)
        \<or> (\<not> failed_tick t \<and> \<not> ok_tick t \<and> other_tick t)"
    by (cases "snd t") (simp_all add: failed_tick_def ok_tick_def other_tick_def)
  with Cons show ?case by auto
qed

lemma new_ServerKeepAlive_stats:
  "stats (new_ServerKeepAlive env t0)
     = \<lparr>totalPings = 0, successfulPings = 0, failedPings = 0, lastPingTime = None, startTime = t0\<rparr>"
  by (simp add: new_ServerKeepAlive_def)

text \<open>
  C7, as the code has it. Every tick increments \<^verbatim>\<open>totalPings\<close> and sets
  \<^verbatim>\<open>lastPingTime\<close>; it increments \<^verbatim>\<open>failedPings\<close> when the request throws,
  \<^verbatim>\<open>successfulPings\<close> when the response has status 200, and neither of the two when the
  response has another status. After \<open>N\<close> ticks of a fresh scheduler, of which \<open>M\<close> threw
  and \<open>K\<close> were answered with a status other than 200, the counters are
  \<^verbatim>\<open>totalPings\<close> = \<open>N\<close>, \<^verbatim>\<open>failedPings\<close> = \<open>M\<close> and \<^verbatim>\<open>successfulPings\<close> = \<open>N - M - K\<close>;
  when every response has status 200 this is \<open>N - M\<close>.
\<close>

theorem liveness_counters_after_ticks:
  "totalPings (stats (run_ticks ts (new_ServerKeepAlive env t0))) = length ts
   \<and> failedPings (stats (run_ticks ts (new_ServerKeepAlive env t0)))
       = length (filter failed_tick ts)
   \<and> successfulPings (stats (run_ticks ts (new_ServerKeepAlive env t0)))
       = length ts - length (filter failed_tick ts) - length (filter other_tick ts)
   \<and> (ts \<noteq> [] \<longrightarrow>
        lastPingTime (stats (run_ticks ts (new_ServerKeepAlive env t0))) = Some (fst (last ts)))
   \<and> (filter other_tick ts = [] \<longrightarrow>
        successfulPings (stats (run_ticks ts (new_ServerKeepAlive env t0)))
          = length ts - length (filter failed_tick ts))"
proof -
  let ?ka = "new_ServerKeepAlive env t0"
  note c = run_ticks_counters [of ts ?ka]
  have z: "totalPings (stats ?ka) = 0" "failedPings (stats ?ka) = 0"
    "successfulPings (stats ?ka) = 0"
    by (simp_all add: new_ServerKeepAlive_stats)
  have total: "totalPings (stats (run_ticks ts ?ka)) = length ts"
    using c z by simp
  have failed: "failedPings (stats (run_ticks ts ?ka)) = length (filter failed_tick ts)"
    using c z by simp
  have ok: "successfulPings (stats (run_ticks ts ?ka)) = length (filter ok_tick ts)"
    using c z by simp
  have succ: "successfulPings (stats (run_ticks ts ?ka))
                = length ts - length (filter failed_tick ts) - length (filter other_tick ts)"
    using ok tick_kinds [of ts] by simp
  have last: "ts \<noteq> [] \<longrightarrow> lastPingTime (stats (run_ticks ts ?ka)) = Some (fst (last ts))"
    by (simp add: run_ticks_last)
  have all200: "filter other_tick ts = [] \<longrightarrow>
                  successfulPings (stats (run_ticks ts ?ka))
                    = length ts - length (filter failed_tick ts)"
    using succ by simp
  from total failed succ last all200 show ?thesis by blast
qed

theorem liveness_counters_after_ticks_witness:
  "totalPings (stats (run_ticks
       [(1, Inr \<lparr>status = 200, data = JsonObject Map.empty\<rparr>),
        (2, Inl (new_Error ''timeout of 30000ms exceeded'')),
        (3, Inr \<lparr>status = 200, data = JsonObject Map.empty\<rparr>)]
       (new_ServerKeepAlive Map.empty 0))) = 3
   \<and> failedPings (stats (run_ticks
       [(1, Inr \<lparr>status = 200, data = JsonObject Map.empty\<rparr>),
        (2, Inl (new_Error ''timeout of 30000ms exceeded'')),
        (3, Inr \<lparr>status = 200, data = JsonObject Map.empty\<rparr>)]
       (new_ServerKeepAlive Map.empty 0))) = 1
   \<and> successfulPings (stats (run_ticks
       [(1, Inr \<lparr>status = 200, data = JsonObject Map.empty\<rparr>),
        (2, Inl (new_Error ''timeout of 30000ms exceeded'')),
        (3, Inr \<lparr>status = 200, data = JsonObject Map.empty\<rparr>)]
       (new_ServerKeepAlive Map.empty 0))) = 2
   \<and> lastPingTime (stats (run_ticks
       [(1, Inr \<lparr>status = 200, data = JsonObject Map.empty\<rparr>),
        (2, Inl (new_Error ''timeout of 30000ms exceeded'')),
        (3, Inr \<lparr>status = 200, data = JsonObject Map.empty\<rparr>)]
       (new_ServerKeepAlive Map.empty 0))) = Some 3"
proof -
  let ?ts = "[(1::nat, Inr \<lparr>status = 200, data = JsonObject Map.empty\<rparr>),
              (2, Inl (new_Error ''timeout of 30000ms exceeded'')),
              (3, Inr \<lparr>status = 200, data = JsonObject Map.empty\<rparr>)]"
  have ne: "?ts \<noteq> []" by simp
  have no: "filter other_tick ?ts = []" by (simp add: other_tick_def)
  have nf: "length (filter failed_tick ?ts) = 1" by (simp add: failed_tick_def)
  note inst = liveness_counters_after_ticks [of ?ts Map.empty 0]
  from inst ne no nf show ?thesis by simp
qed

text \<open>
  The claim C7 as stated fails: a tick answered with status 204 increments
  \<^verbatim>\<open>totalPings\<close> and neither of the other two counters, so that after one tick without
  a failure \<^verbatim>\<open>successfulPings\<close> is 0 and not 1.
\<close>

theorem tick_with_status_204_counts_neither:
  "totalPings (stats (performSelfPing 5 (Inr \<lparr>status = 204, data = JsonObject Map.empty\<rparr>)
      (new_ServerKeepAlive Map.empty 0))) = 1
   \<and> failedPings (stats (performSelfPing 5 (Inr \<lparr>status = 204, data = JsonObject Map.empty\<rparr>)
      (new_ServerKeepAlive Map.empty 0))) = 0
   \<and> successfulPings (stats (performSelfPing 5 (Inr \<lparr>status = 204, data = JsonObject Map.empty\<rparr>)
      (new_ServerKeepAlive Map.empty 0))) = 0
   \<and> successfulPings (stats (performSelfPing 5 (Inr \<lparr>status = 204, data = JsonObject Map.empty\<rparr>)
      (new_ServerKeepAlive Map.empty 0)))
     \<noteq> totalPings (stats (performSelfPing 5 (Inr \<lparr>status = 204, data = JsonObject Map.empty\<rparr>)
          (new_ServerKeepAlive Map.empty 0)))
       - failedPings (stats (performSelfPing 5 (Inr \<lparr>status = 204, data = JsonObject Map.empty\<rparr>)
          (new_ServerKeepAlive Map.empty 0)))"
  by (simp add: performSelfPing_def new_ServerKeepAlive_def Let_def)

lemma start_disabled: "\<not> enabled ka \<Longrightarrow> start ka = ka"
  by (simp add: start_def)

lemma start_enabled:
  assumes "enabled ka"
  shows "cron_jobs (start ka) = cron_jobs ka + 1"
    and "warmup_timers (start ka) = warmup_timers ka + 1"
    and "stats (start ka) = stats ka"
    and "enabled (start ka)"
  using assms by (simp_all add: start_def cron_jobs_def warmup_timers_def)

lemma start_repeated:
  assumes "enabled ka"
  shows "enabled ((start ^^ k) ka)
         \<and> cron_jobs ((start ^^ k) ka) = cron_jobs ka + k
         \<and> warmup_timers ((start ^^ k) ka) = warmup_timers ka + k
         \<and> stats ((start ^^ k) ka) = stats ka"
proof (induction k)
  case 0
  show ?case using assms by simp
next
  case (Suc k)
  then show ?case by (simp add: start_enabled)
qed

lemma start_repeated_disabled: "\<not> enabled ka \<Longrightarrow> (start ^^ k) ka = ka"
  by (induction k) (simp_all add: start_disabled)

lemma fold_pings_total:
  "totalPings (stats (fold (\<lambda>i. performSelfPing now (outcomes i)) js ka))
     = totalPings (stats ka) + length js"
  by (induction js arbitrary: ka) (simp_all add: performSelfPing_stats)

lemma cron_tick_total:
  "totalPings (stats (cron_tick now outcomes ka)) = totalPings (stats ka) + cron_jobs ka"
  by (simp add: cron_tick_def fold_pings_total)

text \<open>
  C8, as the code has it. \<^verbatim>\<open>start()\<close> keeps no record of having been called. On an
  enabled scheduler every call registers one more cron job and one more warm-up timer
  and leaves the counters alone, so after \<open>k\<close> calls there are \<open>k\<close> more of each, and one
  firing of the cron schedule performs as many self-checks as there are cron jobs. Only
  on a disabled scheduler is a call without effect, however often it is made.
\<close>

theorem start_registers_timers_on_every_call:
  "(\<not> enabled ka \<longrightarrow> (start ^^ k) ka = ka)
   \<and> (enabled ka \<longrightarrow>
        cron_jobs ((start ^^ k) ka) = cron_jobs ka + k
        \<and> warmup_timers ((start ^^ k) ka) = warmup_timers ka + k
        \<and> stats ((start ^^ k) ka) = stats ka)
   \<and> totalPings (stats (cron_tick now outcomes ka)) = totalPings (stats ka) + cron_jobs ka"
  using start_repeated [of ka k] start_repeated_disabled [of ka k] cron_tick_total [of now outcomes ka]
  by blast

theorem start_registers_timers_on_every_call_witness:
  "cron_jobs ((start ^^ 2) (new_ServerKeepAlive [''NODE_ENV'' \<mapsto> ''production''] 0)) = 2
   \<and> warmup_timers ((start ^^ 2) (new_ServerKeepAlive [''NODE_ENV'' \<mapsto> ''production''] 0)) = 2
   \<and> (start ^^ 2) (new_ServerKeepAlive [''NODE_ENV'' \<mapsto> ''development''] 0)
       = new_ServerKeepAlive [''NODE_ENV'' \<mapsto> ''development''] 0"
proof -
  let ?p = "new_ServerKeepAlive [''NODE_ENV'' \<mapsto> ''production''] 0"
  let ?d = "new_ServerKeepAlive [''NODE_ENV'' \<mapsto> ''development''] 0"
  have ep: "enabled ?p" by (simp add: new_ServerKeepAlive_def)
  have ed: "\<not> enabled ?d" by (simp add: new_ServerKeepAlive_def)
  have zp: "cron_jobs ?p = 0" "warmup_timers ?p = 0"
    by (simp_all add: new_ServerKeepAlive_def cron_jobs_def warmup_timers_def)
  from start_registers_timers_on_every_call [of ?p 2] ep zp
  have a: "cron_jobs ((start ^^ 2) ?p) = 2 \<and> warmup_timers ((start ^^ 2) ?p) = 2"
    by simp
  from start_registers_timers_on_every_call [of ?d 2] ed
  have b: "(start ^^ 2) ?d = ?d"
    by blast
  from a b show ?thesis by blast
qed

text \<open>
  The claim C8 as stated fails: on an enabled scheduler a second call of \<^verbatim>\<open>start()\<close>
  changes the state again, there are then two cron jobs and two warm-up timers, and one
  firing of the cron schedule performs two self-checks.
\<close>

theorem start_twice_is_not_start_once:
  "start (start (new_ServerKeepAlive [''NODE_ENV'' \<mapsto> ''production''] 0))
     \<noteq> start (new_ServerKeepAlive [''NODE_ENV'' \<mapsto> ''production''] 0)
   \<and> timers (start (start (new_ServerKeepAlive [''NODE_ENV'' \<mapsto> ''production''] 0)))
       = [CronJob ''*/14 * * * *'', Timeout 5000, CronJob ''*/14 * * * *'', Timeout 5000]
   \<and> totalPings (stats (cron_tick 7 (\<lambda>i. Inr \<lparr>status = 200, data = JsonObject Map.empty\<rparr>)
        (start (start (new_ServerKeepAlive [''NODE_ENV'' \<mapsto> ''production''] 0))))) = 2"
proof -
  let ?p = "new_ServerKeepAlive [''NODE_ENV'' \<mapsto> ''production''] 0"
  have t1: "timers (start ?p) = [CronJob ''*/14 * * * *'', Timeout 5000]"
    by (simp add: start_def new_ServerKeepAlive_def)
  have t2: "timers (start (start ?p))
              = [CronJob ''*/14 * * * *'', Timeout 5000, CronJob ''*/14 * * * *'', Timeout 5000]"
    by (simp add: start_def new_ServerKeepAlive_def)
  from t1 t2 have ne: "start (start ?p) \<noteq> start ?p" by auto
  have cj: "cron_jobs (start (start ?p)) = 2"
    by (simp add: cron_jobs_def t2)
  have s0: "totalPings (stats (start (start ?p))) = 0"
    by (simp add: start_def new_ServerKeepAlive_def)
  have tp: "totalPings (stats (cron_tick 7 (\<lambda>i. Inr \<lparr>status = 200, data = JsonObject Map.empty\<rparr>)
              (start (start ?p)))) = 2"
    by (simp add: cron_tick_total cj s0)
  from ne t2 tp show ?thesis by blast
qed



section \<open>Properties of the SMS template\<close>

lemma get_substitution_plain:
  "CHR ''$'' \<notin> set rep \<Longrightarrow> get_substitution m a b rep = rep"
  by (induction m a b rep rule: get_substitution.induct) auto

lemma split_first_sound:
  "split_first pat s = Some (a, b) \<Longrightarrow> s = a @ pat @ b"
proof (induction s arbitrary: a)
  case Nil
  then show ?case by (simp split: if_splits)
next
  case (Cons c cs)
  show ?case
  proof (cases "prefix pat (c # cs)")
    case True
    with Cons.prems have "a = []" "b = drop (length pat) (c # cs)" by simp_all
    moreover from True obtain zs where "c # cs = pat @ zs" by (auto simp: prefix_def)
    ultimately show ?thesis by simp
  next
    case False
    with Cons.prems obtain a' where "split_first pat cs = Some (a', b)" "a = c # a'"
      by (auto split: option.splits)
    with Cons.IH show ?thesis by simp
  qed
qed

lemma split_first_here:
  "pat \<noteq> [] \<Longrightarrow> split_first pat (pat @ rest) = Some ([], rest)"
  by (cases pat) simp_all

lemma split_first_skip:
  "starts_nowhere pat x rest
     \<Longrightarrow> split_first pat (x @ rest) = map_option (\<lambda>(a, b). (x @ a, b)) (split_first pat rest)"
proof (induction x)
  case Nil
  show ?case by (cases "split_first pat rest") auto
next
  case (Cons c cs)
  then show ?case by (cases "split_first pat rest") auto
qed

lemma js_replace_here:
  "pat \<noteq> [] \<Longrightarrow> CHR ''$'' \<notin> set v \<Longrightarrow> js_replace pat v (pat @ rest) = v @ rest"
  by (simp add: js_replace_def split_first_here get_substitution_plain)

lemma js_replace_skip:
  "starts_nowhere pat x rest \<Longrightarrow> CHR ''$'' \<notin> set v
     \<Longrightarrow> js_replace pat v (x @ rest) = x @ js_replace pat v rest"
  by (cases "split_first pat rest")
     (auto simp: js_replace_def split_first_skip get_substitution_plain)

lemma starts_nowhere_append:
  "starts_nowhere pat (x @ y) rest
     = (starts_nowhere pat x (y @ rest) \<and> starts_nowhere pat y rest)"
  by (induction x) auto

lemma starts_nowhere_text:
  "CHR ''{'' \<notin> set s \<Longrightarrow> starts_nowhere (placeholder_text h) s rest"
  by (induction s) (auto simp: placeholder_text_def)

lemma starts_nowhere_other_hole:
  "h' \<noteq> h \<Longrightarrow> starts_nowhere (placeholder_text h) (placeholder_text h') rest"
  by (cases h; cases h') (simp_all add: placeholder_text_def)

lemma name_before_braces:
  assumes "CHR ''}'' \<notin> set n" and "CHR ''}'' \<notin> set m"
    and "prefix (m @ ''}}'') (n @ ''}}'' @ rest)"
  shows "m = n"
  using assms
proof (induction m arbitrary: n)
  case Nil
  then show ?case by (cases n) auto
next
  case (Cons c m)
  then show ?case by (cases n) auto
qed

lemma placeholder_name_no_brace: "CHR ''}'' \<notin> set (placeholder_name h)"
  by (cases h) simp_all

lemma starts_nowhere_unknown:
  assumes "wf_piece (Unknown n)"
  shows "starts_nowhere (placeholder_text h) (render_piece (Unknown n)) rest"
proof -
  from assms have n: "CHR ''{'' \<notin> set n" "CHR ''}'' \<notin> set n" "n \<noteq> placeholder_name h"
    by (cases h; simp)+
  have p0: "\<not> prefix (placeholder_text h) (''{{'' @ n @ ''}}'' @ rest)"
  proof
    assume "prefix (placeholder_text h) (''{{'' @ n @ ''}}'' @ rest)"
    then have "prefix (placeholder_name h @ ''}}'') (n @ ''}}'' @ rest)"
      by (simp add: placeholder_text_def)
    with n(2) placeholder_name_no_brace [of h] have "placeholder_name h = n"
      using name_before_braces by blast
    with n(3) show False by simp
  qed
  have p1: "\<not> prefix (placeholder_text h) (''{'' @ n @ ''}}'' @ rest)"
    using n(1) by (cases n) (auto simp: placeholder_text_def)
  have inner: "starts_nowhere (placeholder_text h) n (''}}'' @ rest)"
    using n(1) by (rule starts_nowhere_text)
  have tail: "starts_nowhere (placeholder_text h) ''}}'' rest"
    by (simp add: placeholder_text_def)
  have "starts_nowhere (placeholder_text h) (''{{'' @ (n @ ''}}'')) rest"
    unfolding starts_nowhere_append [of _ "''{{''"]
    using p0 p1 inner tail by (simp add: starts_nowhere_append)
  then show ?thesis by simp
qed

lemma starts_nowhere_piece:
  assumes "wf_piece p" and "p \<noteq> Hole h"
  shows "starts_nowhere (placeholder_text h) (render_piece p) rest"
proof (cases p)
  case (Text s)
  with assms show ?thesis by (simp add: starts_nowhere_text)
next
  case (Hole h')
  with assms show ?thesis by (simp add: starts_nowhere_other_hole)
next
  case (Unknown n)
  with assms show ?thesis using starts_nowhere_unknown by simp
qed

lemma placeholder_text_nonempty: "placeholder_text h \<noteq> []"
  by (simp add: placeholder_text_def)

lemma js_replace_render:
  assumes "list_all wf_piece ps" and "CHR ''$'' \<notin> set v"
  shows "js_replace (placeholder_text h) v (render ps) = render (fill_first h v ps)"
  using assms(1)
proof (induction ps)
  case Nil
  show ?case by (simp add: render_def js_replace_def placeholder_text_nonempty)
next
  case (Cons p ps)
  show ?case
  proof (cases "p = Hole h")
    case True
    then show ?thesis
      using js_replace_here [OF placeholder_text_nonempty assms(2), of h "render ps"]
      by (simp add: render_def)
  next
    case False
    with Cons.prems have "starts_nowhere (placeholder_text h) (render_piece p) (render ps)"
      by (simp add: starts_nowhere_piece)
    then have "js_replace (placeholder_text h) v (render_piece p @ render ps)
                 = render_piece p @ js_replace (placeholder_text h) v (render ps)"
      using assms(2) by (rule js_replace_skip)
    with Cons False show ?thesis by (simp add: render_def)
  qed
qed

lemma fill_first_wf:
  "list_all wf_piece ps \<Longrightarrow> CHR ''{'' \<notin> set v \<Longrightarrow> list_all wf_piece (fill_first h v ps)"
  by (induction ps) auto

lemma fill_template_render:
  assumes "list_all wf_piece ps"
    and "CHR ''$'' \<notin> set (customerName f)" and "CHR ''{'' \<notin> set (customerName f)"
    and "CHR ''$'' \<notin> set (businessName f)" and "CHR ''{'' \<notin> set (businessName f)"
    and "CHR ''$'' \<notin> set (reviewLink f)"
  shows "fill_template f (render ps)
           = render (fill_first ReviewLink (reviewLink f)
                      (fill_first BusinessName (businessName f)
                        (fill_first CustomerName (customerName f) ps)))"
proof -
  have t: "''{{customerName}}'' = placeholder_text CustomerName"
    "''{{businessName}}'' = placeholder_text BusinessName"
    "''{{reviewLink}}'' = placeholder_text ReviewLink"
    by (simp_all add: placeholder_text_def)
  let ?p1 = "fill_first CustomerName (customerName f) ps"
  let ?p2 = "fill_first BusinessName (businessName f) ?p1"
  have w1: "list_all wf_piece ?p1" using assms(1,3) by (rule fill_first_wf)
  have w2: "list_all wf_piece ?p2" using w1 assms(5) by (rule fill_first_wf)
  show ?thesis
    unfolding fill_template_def t
    by (simp only: js_replace_render [OF assms(1) assms(2)]
          js_replace_render [OF w1 assms(4)] js_replace_render [OF w2 assms(6)])
qed

lemma occurrences_append:
  "occurrences pat x + occurrences pat y \<le> occurrences pat (x @ y)"
proof (induction x)
  case Nil
  show ?case by simp
next
  case (Cons c x)
  have "prefix pat (c # x) \<Longrightarrow> prefix pat (c # x @ y)"
    using prefix_prefix [of pat "c # x" y] by simp
  with Cons show ?case by auto
qed

lemma occurrences_at_hole:
  "occurrences (placeholder_text h) (placeholder_text h' @ b)
     = (if h = h' then 1 else 0) + occurrences (placeholder_text h) b"
  by (cases h; cases h') (simp_all add: placeholder_text_def)

lemma no_straddle:
  assumes "prefix (placeholder_text h) (x @ placeholder_text h' @ b)" and "x \<noteq> []"
  shows "prefix (placeholder_text h) x"
proof -
  from assms(1) consider "prefix (placeholder_text h) x"
    | us where "placeholder_text h = x @ us" "prefix us (placeholder_text h' @ b)"
    by (auto simp: prefix_append)
  then show ?thesis
  proof cases
    case 1
    then show ?thesis .
  next
    case 2
    show ?thesis
    proof (cases "us = []")
      case True
      with 2 show ?thesis by simp
    next
      case False
      with 2 assms(2) have False
        by (cases h; cases h')
           (auto simp: placeholder_text_def Cons_eq_append_conv)
      then show ?thesis ..
    qed
  qed
qed


lemma occurrences_around_hole:
  "occurrences (placeholder_text h) (a @ placeholder_text h' @ b)
     = occurrences (placeholder_text h) a + (if h = h' then 1 else 0)
       + occurrences (placeholder_text h) b"
proof (induction a)
  case Nil
  show ?case by (simp add: occurrences_at_hole)
next
  case (Cons c cs)
  have "prefix (placeholder_text h) (c # cs @ placeholder_text h' @ b)
          \<longleftrightarrow> prefix (placeholder_text h) (c # cs)"
    using no_straddle [of h "c # cs" h' b] prefix_prefix [of "placeholder_text h" "c # cs"]
    by auto
  with Cons show ?case by simp
qed

lemma occurrences_js_replace:
  "occurrences (placeholder_text h) s
     \<le> occurrences (placeholder_text h) (js_replace (placeholder_text h') v s)
         + (if h = h' then 1 else 0)"
proof (cases "split_first (placeholder_text h') s")
  case None
  then show ?thesis by (simp add: js_replace_def)
next
  case (Some ab)
  obtain a b where ab: "ab = (a, b)" by (cases ab)
  let ?x = "get_substitution (placeholder_text h') a b v"
  from Some ab have s: "s = a @ placeholder_text h' @ b"
    by (simp add: split_first_sound)
  have r: "js_replace (placeholder_text h') v s = a @ ?x @ b"
    using Some ab by (simp add: js_replace_def)
  have "occurrences (placeholder_text h) a + occurrences (placeholder_text h) b
          \<le> occurrences (placeholder_text h) (a @ ?x @ b)"
    using occurrences_append [of "placeholder_text h" a "?x @ b"]
      occurrences_append [of "placeholder_text h" ?x b]
    by simp
  then show ?thesis
    unfolding r by (simp add: s occurrences_around_hole)
qed

lemma occurrences_fill_template:
  "occurrences (placeholder_text h) template
     \<le> Suc (occurrences (placeholder_text h) (fill_template f template))"
proof -
  have t: "''{{customerName}}'' = placeholder_text CustomerName"
    "''{{businessName}}'' = placeholder_text BusinessName"
    "''{{reviewLink}}'' = placeholder_text ReviewLink"
    by (simp_all add: placeholder_text_def)
  let ?s1 = "js_replace (placeholder_text CustomerName) (customerName f) template"
  let ?s2 = "js_replace (placeholder_text BusinessName) (businessName f) ?s1"
  let ?s3 = "js_replace (placeholder_text ReviewLink) (reviewLink f) ?s2"
  note o1 = occurrences_js_replace [of h template CustomerName "customerName f"]
  note o2 = occurrences_js_replace [of h ?s1 BusinessName "businessName f"]
  note o3 = occurrences_js_replace [of h ?s2 ReviewLink "reviewLink f"]
  have "occurrences (placeholder_text h) template \<le> Suc (occurrences (placeholder_text h) ?s3)"
    using o1 o2 o3 by (cases h) (simp_all split: if_splits)
  then show ?thesis by (simp add: fill_template_def t)
qed

lemma custom_template_used:
  assumes "customData f = Some d" and "messageTemplate d = Some template" and "template \<noteq> []"
  shows "generateReviewRequestMessage f = fill_template f template"
  using assms by (simp add: generateReviewRequestMessage_def)

text \<open>
  What the three replacements do to a template of brace-free text, recognized and
  unrecognized placeholders, when the field values are plain: the first hole of each
  recognized placeholder receives the field value as it is, with no escaping, and every
  other piece, every unrecognized placeholder among them, is kept.
\<close>

lemma plain_values_fill_first_holes:
  assumes "list_all wf_piece ps"
    and "plain_value (customerName f)" and "plain_value (businessName f)"
    and "plain_value (reviewLink f)"
  shows "fill_template f (render ps)
           = render (fill_first ReviewLink (reviewLink f)
                      (fill_first BusinessName (businessName f)
                        (fill_first CustomerName (customerName f) ps)))"
  using assms by (simp add: plain_value_def fill_template_render)

text \<open>
  C10. With a custom message template, \<^verbatim>\<open>generateReviewRequestMessage\<close> replaces at
  most one occurrence of each recognized placeholder, for every template and all field
  values: of the occurrences of a placeholder in the template all but at most one are
  still in the message. For a template of brace-free text and placeholders and plain
  field values the message is the template with exactly the first hole of each
  recognized placeholder filled, and every later hole left as the placeholder.
\<close>

theorem only_first_occurrence_substituted:
  assumes "customData f = Some d" and "messageTemplate d = Some template" and "template \<noteq> []"
  shows "(\<forall>h. occurrences (placeholder_text h) template
               \<le> Suc (occurrences (placeholder_text h) (generateReviewRequestMessage f)))
         \<and> (\<forall>ps. template = render ps \<and> list_all wf_piece ps
                 \<and> plain_value (customerName f) \<and> plain_value (businessName f)
                 \<and> plain_value (reviewLink f)
               \<longrightarrow> generateReviewRequestMessage f
                     = render (fill_first ReviewLink (reviewLink f)
                                (fill_first BusinessName (businessName f)
                                  (fill_first CustomerName (customerName f) ps))))"
proof -
  have m: "generateReviewRequestMessage f = fill_template f template"
    using assms by (rule custom_template_used)
  show ?thesis
    unfolding m
    using occurrences_fill_template [of _ template f] plain_values_fill_first_holes [of _ f]
    by blast
qed

theorem only_first_occurrence_substituted_witness:
  "generateReviewRequestMessage
     \<lparr>customerName = ''Jane'', businessName = ''Acme'', reviewLink = ''https://g.co/r'',
      customData = Some \<lparr>buttonText = None, messageTemplate =
        Some ''{{customerName}}, {{customerName}}! {{businessName}} {{reviewLink}} {{reviewLink}}''\<rparr>\<rparr>
   = ''Jane, {{customerName}}! Acme https://g.co/r {{reviewLink}}''"
proof -
  let ?t = "''{{customerName}}, {{customerName}}! {{businessName}} {{reviewLink}} {{reviewLink}}''"
  let ?d = "\<lparr>buttonText = None, messageTemplate = Some ?t\<rparr>"
  let ?f = "\<lparr>customerName = ''Jane'', businessName = ''Acme'', reviewLink = ''https://g.co/r'',
             customData = Some ?d\<rparr>"
  let ?ps = "[Hole CustomerName, Text '', '', Hole CustomerName, Text ''! '',
              Hole BusinessName, Text '' '', Hole ReviewLink, Text '' '', Hole ReviewLink]"
  have a: "customData ?f = Some ?d" "messageTemplate ?d = Some ?t" "?t \<noteq> []"
    by simp_all
  have r: "?t = render ?ps"
    by (simp add: render_def placeholder_text_def)
  have w: "list_all wf_piece ?ps"
    by simp
  have p: "plain_value (customerName ?f)" "plain_value (businessName ?f)"
    "plain_value (reviewLink ?f)"
    by (simp_all add: plain_value_def)
  from only_first_occurrence_substituted [OF a] r w p
  have "generateReviewRequestMessage ?f
          = render (fill_first ReviewLink (reviewLink ?f)
                     (fill_first BusinessName (businessName ?f)
                       (fill_first CustomerName (customerName ?f) ?ps)))"
    by blast
  then show ?thesis
    by (simp add: render_def placeholder_text_def)
qed

text \<open>
  C6. The claim is that a custom template has its recognized placeholders replaced by
  the field values. The code passes each field value to \<^verbatim>\<open>String.prototype.replace\<close> as
  the replacement string, where a dollar sign starts a replacement pattern: for the
  customer name \<^verbatim>\<open>Ca$$idy\<close> the message holds \<^verbatim>\<open>Ca$idy\<close>, and for the customer name
  \<^verbatim>\<open>$&\<close> it holds the placeholder itself. The unrecognized placeholder is kept in both.
\<close>

theorem dollar_pattern_in_field_value_expanded:
  "generateReviewRequestMessage
     \<lparr>customerName = ''Ca$$idy'', businessName = ''Acme'', reviewLink = ''https://g.co/r'',
      customData = Some \<lparr>buttonText = None,
                          messageTemplate = Some ''Hi {{customerName}}, code {{foo}}''\<rparr>\<rparr>
   = ''Hi Ca$idy, code {{foo}}''
   \<and> generateReviewRequestMessage
     \<lparr>customerName = ''$&'', businessName = ''Acme'', reviewLink = ''https://g.co/r'',
      customData = Some \<lparr>buttonText = None,
                          messageTemplate = Some ''Hi {{customerName}}, code {{foo}}''\<rparr>\<rparr>
   = ''Hi {{customerName}}, code {{foo}}''"
  by (simp add: generateReviewRequestMessage_def fill_template_def js_replace_def)

end
